theory Spec2Isabelle
  imports Complex_Main "HOL-Library.Multiset"
begin

section \<open>Data model of \<^verbatim>\<open>algorithm.js\<close>\<close>

text \<open>
  The classes \<^verbatim>\<open>Zone\<close>, \<^verbatim>\<open>Drone\<close> and \<^verbatim>\<open>DroneDeliveryOptimizer\<close> become records.
  JavaScript numbers that hold coordinates and distances are read as real numbers (no rounding,
  no NaN among the inputs); identifiers, priorities, demands and payload capacities are the
  integers that \<^verbatim>\<open>parseInt\<close> delivers, of any size. The source computes in binary64: a sum
  is rounded, so that it depends on the order of its terms, the haversine term of two nearly
  antipodal points can round to a value above 1, and integers beyond \<open>2^53\<close> are not all
  distinct. The control flow, the loop bounds and the comparisons are those of the source; a
  statement below that rests on an exact sum, on the value of a trigonometric function or on
  integers of that size holds of the source only where its arithmetic is exact, and the text
  before such a statement says so. On the example inputs all distances are 0 or half the
  circumference of the sphere and all other numbers are small integers, and the comparisons
  that the source makes in binary64 have the outcome they have here. The field \<^verbatim>\<open>executionTime\<close> is a wall-clock
  measurement and is left out. A route is a list of positions in the \<^verbatim>\<open>zones\<close> array,
  position 0 being the base. The entries of the request list are distinct objects, and so are
  the entries of the fleet, so that the lists hold values.
\<close>

record zone =
  zid :: int
  priority :: int
  demand :: int
  lat :: real
  lng :: real
  served :: bool

record drone =
  did :: int
  batteryCapacity :: real
  payloadCapacity :: int
  route :: "nat list"
  totalDistance :: real
  totalDelivered :: int

record optimizer =
  zones :: "zone list"
  drones :: "drone list"
  distanceMatrix :: "real list list"
  baseLocation :: "(real \<times> real) option"

text \<open>The constructors of the three classes.\<close>

definition Zone :: "int \<Rightarrow> int \<Rightarrow> int \<Rightarrow> real \<Rightarrow> real \<Rightarrow> zone" where
  "Zone i p d la lo = \<lparr>zid = i, priority = p, demand = d, lat = la, lng = lo, served = False\<rparr>"

definition Drone :: "int \<Rightarrow> real \<Rightarrow> int \<Rightarrow> drone" where
  "Drone i b p =
     \<lparr>did = i, batteryCapacity = b, payloadCapacity = p, route = [], totalDistance = 0,
      totalDelivered = 0\<rparr>"

definition newOptimizer :: optimizer where
  "newOptimizer = \<lparr>zones = [], drones = [], distanceMatrix = [], baseLocation = None\<rparr>"

section \<open>Setters\<close>

definition setBase :: "real \<Rightarrow> real \<Rightarrow> optimizer \<Rightarrow> optimizer" where
  "setBase la lo st =
     st\<lparr>baseLocation := Some (la, lo),
        zones := \<lparr>zid = 0, priority = 0, demand = 0, lat = la, lng = lo, served = False\<rparr>
                 # filter (\<lambda>z. zid z \<noteq> 0) (zones st)\<rparr>"

definition addZone :: "zone \<Rightarrow> optimizer \<Rightarrow> optimizer" where
  "addZone z st =
     st\<lparr>zones := zones st @ [z\<lparr>zid := int (length (filter (\<lambda>z. zid z \<noteq> 0) (zones st))) + 1\<rparr>]\<rparr>"

definition addDrone :: "drone \<Rightarrow> optimizer \<Rightarrow> optimizer" where
  "addDrone d st = st\<lparr>drones := drones st @ [d]\<rparr>"

definition clear :: "optimizer \<Rightarrow> optimizer" where
  "clear st = newOptimizer"

section \<open>Distances\<close>

definition toRad :: "real \<Rightarrow> real" where
  "toRad degrees = degrees * (pi / 180)"

text \<open>\<^verbatim>\<open>Math.atan2(y, x)\<close> on real arguments.\<close>

definition atan2 :: "real \<Rightarrow> real \<Rightarrow> real" where
  "atan2 y x =
     (if 0 < x then arctan (y / x)
      else if x < 0 \<and> 0 \<le> y then arctan (y / x) + pi
      else if x < 0 then arctan (y / x) - pi
      else if 0 < y then pi / 2
      else if y < 0 then - (pi / 2)
      else 0)"

definition calculateDistance :: "real \<Rightarrow> real \<Rightarrow> real \<Rightarrow> real \<Rightarrow> real" where
  "calculateDistance lat1 lng1 lat2 lng2 =
     (let R = 6371;
          dLat = toRad (lat2 - lat1);
          dLng = toRad (lng2 - lng1);
          a = sin (dLat / 2) * sin (dLat / 2) +
              cos (toRad lat1) * cos (toRad lat2) * sin (dLng / 2) * sin (dLng / 2);
          c = 2 * atan2 (sqrt a) (sqrt (1 - a))
      in R * c)"

definition buildDistanceMatrix :: "zone list \<Rightarrow> real list list" where
  "buildDistanceMatrix zs =
     (let n = length zs
      in map (\<lambda>i. map (\<lambda>j. if i \<noteq> j
                              then calculateDistance (lat (zs ! i)) (lng (zs ! i))
                                     (lat (zs ! j)) (lng (zs ! j))
                              else 0) [0..<n]) [0..<n])"

section \<open>JavaScript numbers that may leave the reals\<close>

text \<open>
  A division can leave the finite numbers: \<^verbatim>\<open>x / 0\<close> is \<^verbatim>\<open>Infinity\<close>, \<^verbatim>\<open>-Infinity\<close> or
  \<^verbatim>\<open>NaN\<close>. The results of the divisions of the source are values of \<open>jsnum\<close>; every
  comparison with \<^verbatim>\<open>NaN\<close> is false.
\<close>

datatype jsnum = Fin real | PosInf | NegInf | NaN

definition js_div :: "real \<Rightarrow> real \<Rightarrow> jsnum" where
  "js_div x y =
     (if y \<noteq> 0 then Fin (x / y) else if 0 < x then PosInf else if x < 0 then NegInf else NaN)"

fun js_lt :: "jsnum \<Rightarrow> jsnum \<Rightarrow> bool" where
  "js_lt (Fin a) (Fin b) = (a < b)"
| "js_lt (Fin a) PosInf = True"
| "js_lt NegInf (Fin b) = True"
| "js_lt NegInf PosInf = True"
| "js_lt _ _ = False"

fun js_add :: "jsnum \<Rightarrow> jsnum \<Rightarrow> jsnum" where
  "js_add (Fin a) (Fin b) = Fin (a + b)"
| "js_add NaN _ = NaN"
| "js_add _ NaN = NaN"
| "js_add PosInf NegInf = NaN"
| "js_add NegInf PosInf = NaN"
| "js_add PosInf _ = PosInf"
| "js_add _ PosInf = PosInf"
| "js_add NegInf _ = NegInf"
| "js_add _ NegInf = NegInf"

text \<open>\<^verbatim>\<open>x * c\<close> and \<^verbatim>\<open>x / c\<close> for a finite \<open>c\<close> that is not negative.\<close>

fun js_scale :: "jsnum \<Rightarrow> real \<Rightarrow> jsnum" where
  "js_scale (Fin a) c = Fin (a * c)"
| "js_scale NaN c = NaN"
| "js_scale PosInf c = (if 0 < c then PosInf else if c < 0 then NegInf else NaN)"
| "js_scale NegInf c = (if 0 < c then NegInf else if c < 0 then PosInf else NaN)"

fun js_quot :: "jsnum \<Rightarrow> real \<Rightarrow> jsnum" where
  "js_quot (Fin a) c = js_div a c"
| "js_quot NaN c = NaN"
| "js_quot PosInf c = (if 0 \<le> c then PosInf else NegInf)"
| "js_quot NegInf c = (if 0 \<le> c then NegInf else PosInf)"

section \<open>Ordering the requests\<close>

text \<open>
  The comparator of \<^verbatim>\<open>sortZonesByPriority\<close>, and the stable sort that
  \<^verbatim>\<open>Array.prototype.sort\<close> performs with it, as an insertion sort that puts an element
  before the first element it does not come after.
\<close>

definition compareZones :: "zone \<Rightarrow> zone \<Rightarrow> int" where
  "compareZones a b =
     (if priority a \<noteq> priority b then priority a - priority b else demand b - demand a)"

fun insertZone :: "zone \<Rightarrow> zone list \<Rightarrow> zone list" where
  "insertZone z [] = [z]"
| "insertZone z (y # ys) =
     (if compareZones z y \<le> 0 then z # y # ys else y # insertZone z ys)"

definition sortZones :: "zone list \<Rightarrow> zone list" where
  "sortZones zs = foldr insertZone zs []"

text \<open>
  On an empty array the source builds \<^verbatim>\<open>[undefined]\<close>, on which the next statement of
  \<^verbatim>\<open>optimize\<close> raises; that array is \<open>None\<close> here.
\<close>

definition sortZonesByPriority :: "zone list \<Rightarrow> zone list option" where
  "sortZonesByPriority zs =
     (case zs of [] \<Rightarrow> None | base # otherZones \<Rightarrow> Some (base # sortZones otherZones))"

section \<open>Route construction\<close>

definition calculateRouteDistance :: "real list list \<Rightarrow> nat list \<Rightarrow> real" where
  "calculateRouteDistance dm rt =
     (if length rt = 0 then 0
      else foldl (\<lambda>totalDist i. totalDist + dm ! (rt ! i) ! (rt ! (i + 1)))
             (dm ! 0 ! (rt ! 0)) [0..<length rt - 1]
           + dm ! (rt ! (length rt - 1)) ! 0)"

definition currentLoad :: "zone list \<Rightarrow> nat list \<Rightarrow> int" where
  "currentLoad zs rt =
     foldl (\<lambda>sum idx. sum + demand (zs ! idx)) 0 (filter (\<lambda>idx. idx \<noteq> 0) rt)"

text \<open>
  The body of the scan over \<^verbatim>\<open>availableZones\<close>. The pair holds \<^verbatim>\<open>nearest\<close>
  (\<open>None\<close> for the sentinel \<^verbatim>\<open>-1\<close>) and \<^verbatim>\<open>minEffectiveDistance\<close>.
\<close>

definition scanZone ::
  "real list list \<Rightarrow> zone list \<Rightarrow> drone \<Rightarrow> nat list \<Rightarrow> nat list \<Rightarrow> nat \<Rightarrow> real \<Rightarrow>
   nat option \<times> jsnum \<Rightarrow> nat \<Rightarrow> nat option \<times> jsnum" where
  "scanZone dm zs d rt visited current currentDistance s zoneIdx =
     (if zoneIdx \<notin> set visited then
        (let dist = dm ! current ! zoneIdx;
             z = zs ! zoneIdx;
             effectiveDist = js_div dist (real_of_int (priority z));
             returnDist = dm ! zoneIdx ! 0;
             totalDist = currentDistance + dist + returnDist
         in if totalDist \<le> batteryCapacity d \<and> js_lt effectiveDist (snd s)
            then (if currentLoad zs rt + demand z \<le> payloadCapacity d
                  then (Some zoneIdx, effectiveDist) else s)
            else s)
      else s)"

definition findNearest ::
  "real list list \<Rightarrow> zone list \<Rightarrow> nat list \<Rightarrow> drone \<Rightarrow> nat list \<Rightarrow> nat list \<Rightarrow> nat \<Rightarrow> real \<Rightarrow>
   nat option" where
  "findNearest dm zs availableZones d rt visited current currentDistance =
     fst (foldl (scanZone dm zs d rt visited current currentDistance) (None, PosInf)
            availableZones)"

lemma scan_fold_fresh:
  "fst (foldl (scanZone dm zs d rt visited current cd) s av) = Some n \<Longrightarrow>
   fst s = Some n \<or> (n \<in> set av \<and> n \<notin> set visited)"
proof (induction av arbitrary: s)
  case Nil
  then show ?case by simp
next
  case (Cons a av)
  from Cons.IH [OF Cons.prems [simplified]]
  show ?case
    by (auto simp: scanZone_def Let_def split: if_splits)
qed

lemma findNearest_fresh:
  "findNearest dm zs av d rt visited current cd = Some n \<Longrightarrow> n \<in> set av \<and> n \<notin> set visited"
  using scan_fold_fresh [of dm zs d rt visited current cd "(None, PosInf)" av n]
  by (simp add: findNearest_def)

function nnLoop ::
  "real list list \<Rightarrow> zone list \<Rightarrow> nat list \<Rightarrow> drone \<Rightarrow> nat list \<Rightarrow> nat list \<Rightarrow> nat \<Rightarrow> real \<Rightarrow>
   nat list" where
  "nnLoop dm zs availableZones d rt visited current currentDistance =
     (case findNearest dm zs availableZones d rt visited current currentDistance of
        None \<Rightarrow> rt
      | Some nearest \<Rightarrow>
          nnLoop dm zs availableZones d (rt @ [nearest]) (visited @ [nearest]) nearest
            (currentDistance + dm ! current ! nearest))"
  by pat_completeness auto
termination
proof (relation "measure (\<lambda>(dm, zs, av, d, rt, visited, current, cd). card (set av - set visited))",
    goal_cases)
  case 1
  show ?case by simp
next
  case (2 dm zs av d rt visited current cd n)
  then have n: "n \<in> set av" "n \<notin> set visited"
    using findNearest_fresh by blast+
  have "set av - set (visited @ [n]) \<subset> set av - set visited"
    using n by auto
  then have "card (set av - set (visited @ [n])) < card (set av - set visited)"
    by (intro psubset_card_mono) auto
  then show ?case by simp
qed

declare nnLoop.simps [simp del]

definition nearestNeighborTSP :: "real list list \<Rightarrow> zone list \<Rightarrow> nat list \<Rightarrow> drone \<Rightarrow> nat list" where
  "nearestNeighborTSP dm zs availableZones d = nnLoop dm zs availableZones d [0] [0] 0 0"

section \<open>Route improvement\<close>

text \<open>
  \<^verbatim>\<open>reverseSegment\<close> swaps in place from both ends. The source calls it only with
  \<open>start < finish < length rt\<close>.
\<close>

function reverseSegment :: "nat list \<Rightarrow> nat \<Rightarrow> nat \<Rightarrow> nat list" where
  "reverseSegment rt start finish =
     (if start < finish
      then reverseSegment (rt[start := rt ! finish, finish := rt ! start]) (start + 1) (finish - 1)
      else rt)"
  by pat_completeness auto
termination
  by (relation "measure (\<lambda>(rt, start, finish). finish - start)") auto

declare reverseSegment.simps [simp del]

lemma length_reverseSegment [simp]: "length (reverseSegment rt s e) = length rt"
  by (induction rt s e rule: reverseSegment.induct) (subst reverseSegment.simps, simp)

text \<open>The body of the two nested loops; the pair holds \<^verbatim>\<open>route\<close> and \<^verbatim>\<open>improved\<close>.\<close>

definition twoOptStep ::
  "real list list \<Rightarrow> real \<Rightarrow> nat \<Rightarrow> nat \<Rightarrow> nat list \<times> bool \<Rightarrow> nat list \<times> bool" where
  "twoOptStep dm maxDistance i j s =
     (let rt = fst s;
          oldDist = dm ! (rt ! (i - 1)) ! (rt ! i) + dm ! (rt ! j) ! (rt ! (j + 1));
          newDist = dm ! (rt ! (i - 1)) ! (rt ! j) + dm ! (rt ! i) ! (rt ! (j + 1))
      in if newDist < oldDist
         then (let testRoute = reverseSegment rt i j;
                   totalDist = calculateRouteDistance dm testRoute
               in if totalDist \<le> maxDistance then (testRoute, True) else s)
         else s)"

lemma length_twoOptStep [simp]: "length (fst (twoOptStep dm m i j s)) = length (fst s)"
  by (simp add: twoOptStep_def Let_def)

function twoOptInner ::
  "real list list \<Rightarrow> real \<Rightarrow> nat \<Rightarrow> nat \<Rightarrow> nat list \<times> bool \<Rightarrow> nat list \<times> bool" where
  "twoOptInner dm maxDistance i j s =
     (if j < length (fst s) - 1
      then twoOptInner dm maxDistance i (j + 1) (twoOptStep dm maxDistance i j s)
      else s)"
  by pat_completeness auto
termination
  by (relation "measure (\<lambda>(dm, m, i, j, s). length (fst s) - j)") auto

declare twoOptInner.simps [simp del]

lemma length_twoOptInner [simp]: "length (fst (twoOptInner dm m i j s)) = length (fst s)"
  by (induction dm m i j s rule: twoOptInner.induct) (subst twoOptInner.simps, simp)

function twoOptOuter ::
  "real list list \<Rightarrow> real \<Rightarrow> nat \<Rightarrow> nat list \<times> bool \<Rightarrow> nat list \<times> bool" where
  "twoOptOuter dm maxDistance i s =
     (if i < length (fst s) - 2
      then twoOptOuter dm maxDistance (i + 1) (twoOptInner dm maxDistance i (i + 1) s)
      else s)"
  by pat_completeness auto
termination
  by (relation "measure (\<lambda>(dm, m, i, s). length (fst s) - i)") auto

declare twoOptOuter.simps [simp del]

definition maxIterations :: nat where
  "maxIterations = 5"

function twoOptWhile :: "real list list \<Rightarrow> real \<Rightarrow> nat \<Rightarrow> nat list \<times> bool \<Rightarrow> nat list" where
  "twoOptWhile dm maxDistance iterations s =
     (if snd s \<and> iterations < maxIterations
      then twoOptWhile dm maxDistance (iterations + 1)
             (twoOptOuter dm maxDistance 1 (fst s, False))
      else fst s)"
  by pat_completeness auto
termination
  by (relation "measure (\<lambda>(dm, m, iterations, s). maxIterations - iterations)") auto

declare twoOptWhile.simps [simp del]

definition twoOptOptimize :: "real list list \<Rightarrow> nat list \<Rightarrow> real \<Rightarrow> nat list" where
  "twoOptOptimize dm rt maxDistance =
     (if length rt < 4 then rt else twoOptWhile dm maxDistance 0 (rt, True))"

section \<open>Fleet assignment and results\<close>

datatype error = TypeError

record droneResult =
  r_id :: int
  r_route :: "zone option list"
  r_totalDistance :: real
  r_totalDelivered :: int
  r_batteryUsage :: jsnum
  routeIndices :: "nat list"

record summary =
  s_totalDistance :: real
  zonesServed :: nat
  totalZones :: int
  criticalServed :: nat
  moderateServed :: nat
  lowServed :: nat
  totalCritical :: nat
  totalModerate :: nat
  totalLow :: nat
  avgBatteryUsage :: jsnum

record results =
  res_drones :: "droneResult list"
  res_summary :: summary

definition availableZonesFor :: "zone list \<Rightarrow> bool list \<Rightarrow> drone \<Rightarrow> nat list" where
  "availableZonesFor zs zoneAssigned d =
     filter (\<lambda>i. \<not> zoneAssigned ! i \<and> demand (zs ! i) \<le> payloadCapacity d) [1..<length zs]"

text \<open>
  The loop that marks the stops of an accepted route; the triple holds \<^verbatim>\<open>this.zones\<close>,
  \<^verbatim>\<open>zoneAssigned\<close> and \<^verbatim>\<open>drone.totalDelivered\<close>.
\<close>

fun markAssigned :: "nat list \<Rightarrow> zone list \<times> bool list \<times> int \<Rightarrow> zone list \<times> bool list \<times> int" where
  "markAssigned [] s = s"
| "markAssigned (zoneIdx # rest) (zs, zoneAssigned, delivered) =
     (if zoneIdx \<noteq> 0 \<and> \<not> zoneAssigned ! zoneIdx
      then markAssigned rest
             (zs[zoneIdx := (zs ! zoneIdx)\<lparr>served := True\<rparr>], zoneAssigned[zoneIdx := True],
              delivered + demand (zs ! zoneIdx))
      else markAssigned rest (zs, zoneAssigned, delivered))"

text \<open>One iteration of the loop over the fleet; a drone with no available zone is skipped.\<close>

definition assignDrone ::
  "real list list \<Rightarrow> drone \<Rightarrow> zone list \<Rightarrow> bool list \<Rightarrow> drone \<times> zone list \<times> bool list" where
  "assignDrone dm d zs zoneAssigned =
     (let availableZones = availableZonesFor zs zoneAssigned d
      in if length availableZones = 0 then (d, zs, zoneAssigned)
         else
           (let rt0 = nearestNeighborTSP dm zs availableZones d;
                rt = (if length rt0 > 1 then twoOptOptimize dm rt0 (batteryCapacity d) else rt0)
            in case markAssigned rt (zs, zoneAssigned, 0) of
                 (zs', zoneAssigned', delivered) \<Rightarrow>
                   (d\<lparr>route := rt, totalDistance := calculateRouteDistance dm rt,
                      totalDelivered := delivered\<rparr>, zs', zoneAssigned')))"

fun assignRoutes ::
  "real list list \<Rightarrow> drone list \<Rightarrow> zone list \<Rightarrow> bool list \<Rightarrow> drone list \<times> zone list \<times> bool list" where
  "assignRoutes dm [] zs zoneAssigned = ([], zs, zoneAssigned)"
| "assignRoutes dm (d # ds) zs zoneAssigned =
     (case assignDrone dm d zs zoneAssigned of
        (d', zs', zoneAssigned') \<Rightarrow>
          (case assignRoutes dm ds zs' zoneAssigned' of
             (ds', zs'', zoneAssigned'') \<Rightarrow> (d' # ds', zs'', zoneAssigned'')))"

text \<open>
  \<^verbatim>\<open>getResults\<close>, without the formatting by \<^verbatim>\<open>toFixed\<close> and without the execution time.
  A route entry outside the array reads \<^verbatim>\<open>undefined\<close>, here \<open>None\<close>.
\<close>

definition batteryUsageOf :: "drone \<Rightarrow> jsnum" where
  "batteryUsageOf d = js_scale (js_div (totalDistance d) (batteryCapacity d)) 100"

definition getResults :: "zone list \<Rightarrow> drone list \<Rightarrow> results" where
  "getResults zs ds =
     \<lparr>res_drones =
        map (\<lambda>d. \<lparr>r_id = did d,
                  r_route = map (\<lambda>idx. if idx < length zs then Some (zs ! idx) else None) (route d),
                  r_totalDistance = totalDistance d,
                  r_totalDelivered = totalDelivered d,
                  r_batteryUsage = batteryUsageOf d,
                  routeIndices = route d\<rparr>) ds,
      res_summary =
        \<lparr>s_totalDistance = foldl (\<lambda>sum d. sum + totalDistance d) 0 ds,
         zonesServed = length (filter (\<lambda>z. served z \<and> zid z \<noteq> 0) zs),
         totalZones = int (length zs) - 1,
         criticalServed = length (filter (\<lambda>z. served z \<and> priority z = 1) zs),
         moderateServed = length (filter (\<lambda>z. served z \<and> priority z = 2) zs),
         lowServed = length (filter (\<lambda>z. served z \<and> priority z = 3) zs),
         totalCritical = length (filter (\<lambda>z. priority z = 1 \<and> zid z \<noteq> 0) zs),
         totalModerate = length (filter (\<lambda>z. priority z = 2 \<and> zid z \<noteq> 0) zs),
         totalLow = length (filter (\<lambda>z. priority z = 3 \<and> zid z \<noteq> 0) zs),
         avgBatteryUsage =
           js_quot (foldl (\<lambda>sum d. js_add sum (batteryUsageOf d)) (Fin 0) ds)
             (real (length ds))\<rparr>\<rparr>"

text \<open>
  \<^verbatim>\<open>optimize\<close>: the matrix is built from the requests in the order they have on entry,
  then the requests are sorted, then the fleet is served in registration order. The result
  is the state the call leaves behind together with the value it returns.
\<close>

definition optimize :: "optimizer \<Rightarrow> error + optimizer \<times> results" where
  "optimize st =
     (let dm = buildDistanceMatrix (zones st)
      in case sortZonesByPriority (zones st) of
           None \<Rightarrow> Inl TypeError
         | Some sortedZones \<Rightarrow>
             (let zs0 = map (\<lambda>z. z\<lparr>served := False\<rparr>) sortedZones;
                  zs1 = zs0[0 := (zs0 ! 0)\<lparr>served := True\<rparr>];
                  zoneAssigned = (replicate (length zs1) False)[0 := True]
              in case assignRoutes dm (drones st) zs1 zoneAssigned of
                   (ds', zs', zoneAssigned') \<Rightarrow>
                     Inr (st\<lparr>zones := zs', drones := ds', distanceMatrix := dm\<rparr>,
                          getResults zs' ds')))"

section \<open>Example inputs\<close>

text \<open>
  Concrete requests, fleets and optimizer states on which the functions are evaluated further
  down. All requests lie on the equator at longitude 0 or 180, so every distance is 0 or
  \<open>far\<close>, half the circumference of the sphere.
\<close>

definition far :: real where
  "far = 6371 * pi"

definition zBase :: zone where
  "zBase = \<lparr>zid = 0, priority = 0, demand = 0, lat = 0, lng = 0, served = False\<rparr>"

definition zFar :: zone where
  "zFar = \<lparr>zid = 1, priority = 3, demand = 10, lat = 0, lng = 180, served = False\<rparr>"

definition zNear :: zone where
  "zNear = \<lparr>zid = 2, priority = 1, demand = 10, lat = 0, lng = 0, served = False\<rparr>"

definition stEx :: optimizer where
  "stEx = addDrone (Drone 2 60000 50) (addDrone (Drone 1 100 50)
            (addZone (Zone 0 1 10 0 0) (addZone (Zone 0 3 10 0 180) (setBase 0 0 newOptimizer))))"

definition dmEx :: "real list list" where
  "dmEx = [[0, far, 0], [far, 0, far], [0, far, 0]]"

definition zsEx :: "zone list" where
  "zsEx = [zBase\<lparr>served := True\<rparr>, zNear, zFar]"

definition zsEx1 :: "zone list" where
  "zsEx1 = [zBase\<lparr>served := True\<rparr>, zNear, zFar\<lparr>served := True\<rparr>]"

definition zsEx2 :: "zone list" where
  "zsEx2 = [zBase\<lparr>served := True\<rparr>, zNear\<lparr>served := True\<rparr>, zFar\<lparr>served := True\<rparr>]"

definition dronesEx1 :: "drone list" where
  "dronesEx1 =
     [(Drone 1 100 50)\<lparr>route := [0, 2], totalDistance := 0, totalDelivered := 10\<rparr>,
      (Drone 2 60000 50)\<lparr>route := [0, 1], totalDistance := 2 * far, totalDelivered := 10\<rparr>]"

definition stEx1 :: optimizer where
  "stEx1 = \<lparr>zones = zsEx2, drones = dronesEx1, distanceMatrix = dmEx,
            baseLocation = Some (0, 0)\<rparr>"

definition dmEx' :: "real list list" where
  "dmEx' = [[0, 0, far], [0, 0, far], [far, far, 0]]"

definition droneA :: drone where
  "droneA = (Drone 1 100 50)\<lparr>route := [0, 2], totalDistance := 0, totalDelivered := 10\<rparr>"

definition droneB :: drone where
  "droneB = (Drone 2 60000 50)\<lparr>route := [0, 1], totalDistance := 2 * far, totalDelivered := 10\<rparr>"

definition zsEx3 :: "zone list" where
  "zsEx3 = [zBase\<lparr>served := True\<rparr>, zNear\<lparr>served := True\<rparr>, zFar]"

definition dronesEx2 :: "drone list" where
  "dronesEx2 =
     [droneA\<lparr>route := [0, 1], totalDistance := 0, totalDelivered := 10\<rparr>,
      droneB\<lparr>route := [0, 2], totalDistance := 2 * far, totalDelivered := 10\<rparr>]"

definition stEx2 :: optimizer where
  "stEx2 = \<lparr>zones = zsEx2, drones = dronesEx2, distanceMatrix = dmEx',
            baseLocation = Some (0, 0)\<rparr>"

definition zs4 :: "zone list" where
  "zs4 = [Zone 0 0 0 0 0, Zone 1 1 5 0 180, Zone 2 1 5 0 0, Zone 3 1 5 0 180]"

definition dm4 :: "real list list" where
  "dm4 = [[0, far, 0, far], [far, 0, far, 0], [0, far, 0, far], [far, 0, far, 0]]"

definition stBaseOnly :: optimizer where
  "stBaseOnly = addDrone (Drone 1 100 50) (setBase 0 0 newOptimizer)"

definition stNoFleet :: optimizer where
  "stNoFleet = addZone (Zone 0 1 10 0 0) (setBase 0 0 newOptimizer)"

text \<open>
  A fleet that is used for two calls. Before the first call there is one request, of demand 5,
  at the far side of the sphere: \<open>stR0\<close>, which the first call turns into \<open>stR1\<close>. Then the
  base is moved to the place of that request and a request of demand 50 is added at the same
  place: \<open>stR2\<close>, which the second call turns into \<open>stR3\<close>.
\<close>

definition zA :: zone where
  "zA = \<lparr>zid = 1, priority = 1, demand = 5, lat = 0, lng = 180, served = False\<rparr>"

definition zB :: zone where
  "zB = \<lparr>zid = 2, priority = 1, demand = 50, lat = 0, lng = 180, served = False\<rparr>"

definition zBase' :: zone where
  "zBase' = \<lparr>zid = 0, priority = 0, demand = 0, lat = 0, lng = 180, served = False\<rparr>"

definition droneC :: drone where
  "droneC = (Drone 1 100 100)\<lparr>route := [0], totalDistance := 0, totalDelivered := 0\<rparr>"

definition droneD :: drone where
  "droneD = (Drone 2 60000 10)\<lparr>route := [0, 1], totalDistance := 2 * far, totalDelivered := 5\<rparr>"

definition stR0 :: optimizer where
  "stR0 = addDrone (Drone 2 60000 10) (addDrone (Drone 1 100 100)
            (addZone (Zone 0 1 5 0 180) (setBase 0 0 newOptimizer)))"

definition stR1 :: optimizer where
  "stR1 = \<lparr>zones = [zBase\<lparr>served := True\<rparr>, zA\<lparr>served := True\<rparr>], drones = [droneC, droneD],
            distanceMatrix = [[0, far], [far, 0]], baseLocation = Some (0, 0)\<rparr>"

definition stR2 :: optimizer where
  "stR2 = addZone (Zone 0 1 50 0 180) (setBase 0 180 stR1)"

definition zsR3 :: "zone list" where
  "zsR3 = [zBase'\<lparr>served := True\<rparr>, zB\<lparr>served := True\<rparr>, zA\<lparr>served := True\<rparr>]"

definition stR3 :: optimizer where
  "stR3 = \<lparr>zones = zsR3,
            drones = [droneC\<lparr>route := [0, 1, 2], totalDistance := 0, totalDelivered := 55\<rparr>, droneD],
            distanceMatrix = [[0, 0, 0], [0, 0, 0], [0, 0, 0]], baseLocation = Some (0, 180)\<rparr>"

section \<open>Properties of the setters\<close>

text \<open>
  Claim C10. \<^verbatim>\<open>setBase\<close> puts the new base entry (id 0, priority 0, demand 0, not served)
  at position 0 and keeps after it every request whose id is not 0, unchanged in all its
  fields and in the order it had; the fleet and the distance matrix are not touched.
\<close>

theorem setBase_preserves_requests:
  "zones (setBase la lo st) =
     \<lparr>zid = 0, priority = 0, demand = 0, lat = la, lng = lo, served = False\<rparr>
     # filter (\<lambda>z. zid z \<noteq> 0) (zones st)
   \<and> filter (\<lambda>z. zid z \<noteq> 0) (zones (setBase la lo st)) = filter (\<lambda>z. zid z \<noteq> 0) (zones st)
   \<and> drones (setBase la lo st) = drones st
   \<and> distanceMatrix (setBase la lo st) = distanceMatrix st"
  by (simp add: setBase_def)

text \<open>
  Claim C5, as amended. Insertion validates nothing and never fails: \<^verbatim>\<open>addZone\<close> appends
  the request with the priority, demand and coordinates it was given, whatever they are, and
  only overwrites its id with the number of requests other than the base plus one;
  \<^verbatim>\<open>addDrone\<close> appends the drone as it was given, whatever its battery and payload
  capacities are.
\<close>

theorem addZone_addDrone_append:
  "zones (addZone z st) =
     zones st @ [z\<lparr>zid := int (length (filter (\<lambda>z. zid z \<noteq> 0) (zones st))) + 1\<rparr>]
   \<and> priority (last (zones (addZone z st))) = priority z
   \<and> demand (last (zones (addZone z st))) = demand z
   \<and> lat (last (zones (addZone z st))) = lat z \<and> lng (last (zones (addZone z st))) = lng z
   \<and> drones (addZone z st) = drones st
   \<and> drones (addDrone d st) = drones st @ [d]
   \<and> zones (addDrone d st) = zones st"
  by (simp add: addZone_def addDrone_def)

text \<open>
  Against claim C5 as stated: a request with demand -5 and priority 7 is stored, and so is a
  drone with battery capacity -1 and payload capacity 0; both collections change.
\<close>

theorem addZone_addDrone_accept_invalid:
  "zones (addZone (Zone 0 7 (- 5) 1 1) (setBase 0 0 newOptimizer)) =
     [zBase, \<lparr>zid = 1, priority = 7, demand = - 5, lat = 1, lng = 1, served = False\<rparr>]
   \<and> zones (addZone (Zone 0 7 (- 5) 1 1) (setBase 0 0 newOptimizer)) \<noteq> zones (setBase 0 0 newOptimizer)
   \<and> drones (addDrone (Drone 1 (- 1) 0) newOptimizer) = [Drone 1 (- 1) 0]
   \<and> drones (addDrone (Drone 1 (- 1) 0) newOptimizer) \<noteq> drones newOptimizer"
  by (simp add: addZone_def addDrone_def setBase_def newOptimizer_def Zone_def zBase_def)

section \<open>The distance matrix\<close>

lemma calculateDistance_sym: "calculateDistance a b c d = calculateDistance c d a b"
proof -
  have 1: "toRad (c - a) = - toRad (a - c)" by (simp add: toRad_def field_simps)
  have 2: "toRad (d - b) = - toRad (b - d)" by (simp add: toRad_def field_simps)
  show ?thesis
    unfolding calculateDistance_def Let_def 1 2
    by (simp add: mult.commute)
qed

lemma bdm_nth:
  "i < length zs \<Longrightarrow> j < length zs \<Longrightarrow>
   buildDistanceMatrix zs ! i ! j =
     (if i \<noteq> j then calculateDistance (lat (zs ! i)) (lng (zs ! i)) (lat (zs ! j)) (lng (zs ! j))
      else 0)"
  by (simp add: buildDistanceMatrix_def Let_def)

text \<open>
  With distances computed exactly, the matrix is equal to its transpose. This is a fact about
  the formula. It does not carry over to every matrix that the source builds: the source
  evaluates \<^verbatim>\<open>a\<close> in binary64 and does not bound it by 1, and for two nearly antipodal
  points, such as (8, 0) and (-8, 180), \<^verbatim>\<open>a\<close> rounds to 1.0000000000000002, so that
  \<^verbatim>\<open>Math.sqrt(1 - a)\<close> and with it the distance are \<^verbatim>\<open>NaN\<close>, which is equal to no
  number, itself included. The symmetry that claim C8 states for every sequence of locations
  is thus not a theorem about the source; what is independent of the arithmetic is the shape
  of the matrix and its diagonal, stated next.
\<close>

lemma buildDistanceMatrix_symmetric_exact:
  "i < length zs \<Longrightarrow> j < length zs \<Longrightarrow>
   buildDistanceMatrix zs ! i ! j = buildDistanceMatrix zs ! j ! i"
  using calculateDistance_sym by (simp add: bdm_nth)

text \<open>
  For every list of locations the matrix that \<^verbatim>\<open>buildDistanceMatrix\<close> builds has as many
  rows as there are locations, every row is as long, and every entry on the diagonal is the 0
  that \<^verbatim>\<open>fill(0)\<close> wrote: the loop assigns an entry only where \<^verbatim>\<open>i !== j\<close>.
\<close>

theorem buildDistanceMatrix_square:
  "length (buildDistanceMatrix zs) = length zs
   \<and> map length (buildDistanceMatrix zs) = replicate (length zs) (length zs)
   \<and> map (\<lambda>i. buildDistanceMatrix zs ! i ! i) [0..<length zs] = replicate (length zs) 0"
proof -
  have "length (buildDistanceMatrix zs) = length zs"
    by (simp add: buildDistanceMatrix_def Let_def)
  moreover have "map length (buildDistanceMatrix zs) = replicate (length zs) (length zs)"
    by (simp add: buildDistanceMatrix_def Let_def comp_def map_replicate_const)
  moreover have "map (\<lambda>i. buildDistanceMatrix zs ! i ! i) [0..<length zs]
      = replicate (length zs) 0"
    by (rule nth_equalityI) (simp_all add: bdm_nth)
  ultimately show ?thesis by simp
qed

section \<open>Properties of route construction\<close>

lemma foldl_add_sum:
  "foldl (\<lambda>t i. t + f i) a [0..<n] = (a::real) + (\<Sum>i<n. f i)"
  by (induction n) simp_all

lemma crd_sum:
  "rt \<noteq> [] \<Longrightarrow>
   calculateRouteDistance dm rt =
     dm ! 0 ! (rt ! 0) + (\<Sum>i<length rt - 1. dm ! (rt ! i) ! (rt ! (i + 1)))
     + dm ! (rt ! (length rt - 1)) ! 0"
  by (simp add: calculateRouteDistance_def foldl_add_sum)

lemma crd_snoc:
  assumes "rt \<noteq> []"
  shows "calculateRouteDistance dm (rt @ [n]) =
     calculateRouteDistance dm rt - dm ! (last rt) ! 0 + dm ! (last rt) ! n + dm ! n ! 0"
proof -
  obtain k where k: "length rt = Suc k"
    using assms by (cases rt) auto
  have "(\<Sum>i<k. dm ! ((rt @ [n]) ! i) ! ((rt @ [n]) ! (i + 1)))
      = (\<Sum>i<k. dm ! (rt ! i) ! (rt ! (i + 1)))"
    by (rule sum.cong) (auto simp: nth_append k)
  moreover have "last rt = rt ! k"
    using assms k by (simp add: last_conv_nth)
  ultimately show ?thesis
    using assms by (simp add: crd_sum k nth_append)
qed

lemma foldl_add_sum_list:
  "foldl (\<lambda>s i. s + f i) a xs = (a::int) + sum_list (map f xs)"
  by (induction xs arbitrary: a) simp_all

lemma currentLoad_sum:
  "currentLoad zs rt = sum_list (map (\<lambda>i. demand (zs ! i)) (filter (\<lambda>i. i \<noteq> 0) rt))"
  by (simp add: currentLoad_def foldl_add_sum_list)

lemma currentLoad_snoc:
  "currentLoad zs (rt @ [n]) = currentLoad zs rt + (if n \<noteq> 0 then demand (zs ! n) else 0)"
  by (simp add: currentLoad_sum)

lemma currentLoad_mset:
  "mset rt = mset rt' \<Longrightarrow> currentLoad zs rt = currentLoad zs rt'"
proof -
  assume "mset rt = mset rt'"
  then have "mset (filter (\<lambda>i. i \<noteq> 0) rt) = mset (filter (\<lambda>i. i \<noteq> 0) rt')"
    by (metis mset_filter)
  then have "mset (map (\<lambda>i. demand (zs ! i)) (filter (\<lambda>i. i \<noteq> 0) rt))
           = mset (map (\<lambda>i. demand (zs ! i)) (filter (\<lambda>i. i \<noteq> 0) rt'))"
    by (metis mset_map)
  then show ?thesis
    by (metis currentLoad_sum sum_mset_sum_list)
qed

lemma scan_fold_feasible:
  "fst (foldl (scanZone dm zs d rt visited current cd) s av) = Some n \<Longrightarrow>
   fst s = Some n \<or>
   (cd + dm ! current ! n + dm ! n ! 0 \<le> batteryCapacity d
    \<and> currentLoad zs rt + demand (zs ! n) \<le> payloadCapacity d)"
proof (induction av arbitrary: s)
  case Nil
  then show ?case by simp
next
  case (Cons a av)
  from Cons.IH [OF Cons.prems [simplified]]
  show ?case
    by (auto simp: scanZone_def Let_def split: if_splits)
qed

lemma findNearest_feasible:
  "findNearest dm zs av d rt visited current cd = Some n \<Longrightarrow>
   cd + dm ! current ! n + dm ! n ! 0 \<le> batteryCapacity d
   \<and> currentLoad zs rt + demand (zs ! n) \<le> payloadCapacity d"
  using scan_fold_feasible [of dm zs d rt visited current cd "(None, PosInf)" av n]
  by (simp add: findNearest_def)

lemma nnLoop_preserves:
  "(\<And>rt vis cur cd n. P rt vis cur cd \<Longrightarrow> findNearest dm zs av d rt vis cur cd = Some n \<Longrightarrow>
       P (rt @ [n]) (vis @ [n]) n (cd + dm ! cur ! n)) \<Longrightarrow>
   P rt visited current cd \<Longrightarrow>
   \<exists>vis' cur' cd'. P (nnLoop dm zs av d rt visited current cd) vis' cur' cd'"
proof (induction dm zs av d rt visited current cd rule: nnLoop.induct)
  case (1 dm zs av d rt visited current cd)
  show ?case
  proof (cases "findNearest dm zs av d rt visited current cd")
    case None
    then show ?thesis
      using "1.prems"(2) by (subst nnLoop.simps) auto
  next
    case (Some n)
    have "P (rt @ [n]) (visited @ [n]) n (cd + dm ! current ! n)"
      using "1.prems" Some by blast
    from "1.IH" [OF Some "1.prems"(1) this]
    show ?thesis
      using Some by (subst nnLoop.simps) simp
  qed
qed

text \<open>Shape of the route under construction: it starts at the base, visits no stop twice and
  takes its stops from the available ones.\<close>

definition nnShape :: "nat list \<Rightarrow> nat list \<Rightarrow> nat list \<Rightarrow> nat \<Rightarrow> bool" where
  "nnShape av rt visited current \<longleftrightarrow>
     rt \<noteq> [] \<and> hd rt = 0 \<and> last rt = current \<and> set visited = set rt \<and> distinct rt
     \<and> set rt \<subseteq> insert 0 (set av)"

lemma nnShape_step:
  assumes "nnShape av rt visited current"
    and "findNearest dm zs av d rt visited current cd = Some n"
  shows "nnShape av (rt @ [n]) (visited @ [n]) n \<and> n \<noteq> 0"
proof -
  from assms(2) have fresh: "n \<in> set av" "n \<notin> set visited"
    using findNearest_fresh by blast+
  from assms(1) have rt: "rt \<noteq> []" "hd rt = 0" "last rt = current" "set visited = set rt"
    "distinct rt" "set rt \<subseteq> insert 0 (set av)"
    by (simp_all add: nnShape_def)
  have "0 \<in> set rt" using rt(1,2) by (metis hd_in_set)
  then have "n \<noteq> 0" using fresh rt(4) by metis
  then show ?thesis
    using rt fresh by (simp add: nnShape_def)
qed

lemma nearestNeighborTSP_shape:
  "distinct (nearestNeighborTSP dm zs av d)
   \<and> set (nearestNeighborTSP dm zs av d) \<subseteq> insert 0 (set av)
   \<and> nearestNeighborTSP dm zs av d \<noteq> []
   \<and> hd (nearestNeighborTSP dm zs av d) = 0"
proof -
  have "\<exists>vis' cur' (cd'::real). nnShape av (nnLoop dm zs av d [0] [0] 0 0) vis' cur'"
    by (rule nnLoop_preserves [where P = "\<lambda>rt vis cur cd. nnShape av rt vis cur"])
      (use nnShape_step in \<open>auto simp: nnShape_def\<close>)
  then show ?thesis
    by (auto simp: nnShape_def nearestNeighborTSP_def)
qed

lemma nearestNeighborTSP_load:
  assumes "0 \<le> payloadCapacity d"
  shows "currentLoad zs (nearestNeighborTSP dm zs av d) \<le> payloadCapacity d"
proof -
  let ?P = "\<lambda>rt vis cur (cd::real). nnShape av rt vis cur \<and> currentLoad zs rt \<le> payloadCapacity d"
  have "\<exists>vis' cur' cd'. ?P (nnLoop dm zs av d [0] [0] 0 0) vis' cur' cd'"
  proof (rule nnLoop_preserves [where P = ?P])
    show "?P [0] [0] 0 0"
      using assms by (simp add: nnShape_def currentLoad_def)
  next
    fix rt vis cur cd n
    assume P: "?P rt vis cur cd" and f: "findNearest dm zs av d rt vis cur cd = Some n"
    from nnShape_step [OF _ f] P
    have "nnShape av (rt @ [n]) (vis @ [n]) n" "n \<noteq> 0" by blast+
    moreover have "currentLoad zs rt + demand (zs ! n) \<le> payloadCapacity d"
      using findNearest_feasible [OF f] by blast
    ultimately show "?P (rt @ [n]) (vis @ [n]) n (cd + dm ! cur ! n)"
      by (simp add: currentLoad_snoc)
  qed
  then show ?thesis
    by (auto simp: nearestNeighborTSP_def)
qed

lemma nearestNeighborTSP_range:
  assumes "0 \<le> batteryCapacity d" "dm ! 0 ! 0 = 0"
  shows "calculateRouteDistance dm (nearestNeighborTSP dm zs av d) \<le> batteryCapacity d"
proof -
  let ?P = "\<lambda>rt vis cur cd. nnShape av rt vis cur
       \<and> calculateRouteDistance dm rt = cd + dm ! cur ! 0
       \<and> cd + dm ! cur ! 0 \<le> batteryCapacity d"
  have "\<exists>vis' cur' cd'. ?P (nnLoop dm zs av d [0] [0] 0 0) vis' cur' cd'"
  proof (rule nnLoop_preserves [where P = ?P])
    show "?P [0] [0] 0 0"
      using assms by (simp add: nnShape_def calculateRouteDistance_def)
  next
    fix rt vis cur cd n
    assume P: "?P rt vis cur cd" and f: "findNearest dm zs av d rt vis cur cd = Some n"
    from nnShape_step [OF _ f] P
    have sh: "nnShape av (rt @ [n]) (vis @ [n]) n" by blast
    from P have rt: "rt \<noteq> []" "last rt = cur" "calculateRouteDistance dm rt = cd + dm ! cur ! 0"
      by (simp_all add: nnShape_def)
    have "calculateRouteDistance dm (rt @ [n]) = cd + dm ! cur ! n + dm ! n ! 0"
      using crd_snoc [OF rt(1), of dm n] rt(2,3) by simp
    moreover have "cd + dm ! cur ! n + dm ! n ! 0 \<le> batteryCapacity d"
      using findNearest_feasible [OF f] by blast
    ultimately show "?P (rt @ [n]) (vis @ [n]) n (cd + dm ! cur ! n)"
      using sh by simp
  qed
  then show ?thesis
    by (auto simp: nearestNeighborTSP_def)
qed

section \<open>Properties of route improvement\<close>

lemma reverseSegment_nth:
  "e < length rt \<Longrightarrow> k < length rt \<Longrightarrow>
   reverseSegment rt s e ! k = (if s \<le> k \<and> k \<le> e then rt ! (s + e - k) else rt ! k)"
proof (induction rt s e arbitrary: k rule: reverseSegment.induct)
  case (1 rt s e)
  show ?case
  proof (cases "s < e")
    case True
    let ?rt' = "rt[s := rt ! e, e := rt ! s]"
    have len: "e - 1 < length ?rt'" "k < length ?rt'"
      using "1.prems" by simp_all
    have "reverseSegment rt s e ! k = reverseSegment ?rt' (s + 1) (e - 1) ! k"
      using True by (subst reverseSegment.simps) simp
    also have "\<dots> = (if s + 1 \<le> k \<and> k \<le> e - 1 then ?rt' ! (s + 1 + (e - 1) - k) else ?rt' ! k)"
      using "1.IH" [OF True len] .
    also have "\<dots> = (if s \<le> k \<and> k \<le> e then rt ! (s + e - k) else rt ! k)"
      using True "1.prems" by (auto simp: nth_list_update)
    finally show ?thesis .
  next
    case False
    then show ?thesis
      by (subst reverseSegment.simps) (auto intro: arg_cong [where f = "(!) rt"])
  qed
qed

lemma mset_reverseSegment:
  "e < length rt \<Longrightarrow> mset (reverseSegment rt s e) = mset rt"
proof (induction rt s e rule: reverseSegment.induct)
  case (1 rt s e)
  show ?case
  proof (cases "s < e")
    case True
    have "mset (rt[s := rt ! e, e := rt ! s]) = mset rt"
      using True "1.prems" by (simp add: mset_swap)
    then show ?thesis
      using True "1.IH" [OF True] "1.prems" by (subst reverseSegment.simps) simp
  next
    case False
    then show ?thesis by (subst reverseSegment.simps) simp
  qed
qed

lemma sum_split5:
  fixes g :: "nat \<Rightarrow> real"
  assumes "1 \<le> i" "i < j" "j + 1 < n"
  shows "(\<Sum>k<n - 1. g k) =
     (\<Sum>k<i - 1. g k) + g (i - 1) + (\<Sum>k = i..<j. g k) + g j + (\<Sum>k = j + 1..<n - 1. g k)"
proof -
  have a: "{..<n - 1} = {0..<i - 1} \<union> {i - 1} \<union> {i..<j} \<union> {j} \<union> {j + 1..<n - 1}"
    using assms by auto
  have "(\<Sum>k<n - 1. g k) = sum g ({0..<i - 1} \<union> {i - 1} \<union> {i..<j} \<union> {j} \<union> {j + 1..<n - 1})"
    by (simp only: a)
  also have "\<dots> = sum g ({0..<i - 1} \<union> {i - 1} \<union> {i..<j} \<union> {j}) + sum g {j + 1..<n - 1}"
    by (rule sum.union_disjoint) (use assms in auto)
  also have "sum g ({0..<i - 1} \<union> {i - 1} \<union> {i..<j} \<union> {j}) = sum g ({0..<i - 1} \<union> {i - 1} \<union> {i..<j}) + sum g {j}"
    by (rule sum.union_disjoint) (use assms in auto)
  also have "sum g ({0..<i - 1} \<union> {i - 1} \<union> {i..<j}) = sum g ({0..<i - 1} \<union> {i - 1}) + sum g {i..<j}"
    by (rule sum.union_disjoint) (use assms in auto)
  also have "sum g ({0..<i - 1} \<union> {i - 1}) = sum g {0..<i - 1} + sum g {i - 1}"
    by (rule sum.union_disjoint) auto
  finally show ?thesis
    by (simp add: lessThan_atLeast0)
qed

lemma crd_reverseSegment:
  assumes sym: "\<forall>a \<in> set rt. \<forall>b \<in> set rt. dm ! a ! b = dm ! b ! a"
    and ij: "1 \<le> i" "i < j" "j + 1 < length rt"
  shows "calculateRouteDistance dm (reverseSegment rt i j) =
     calculateRouteDistance dm rt
     - (dm ! (rt ! (i - 1)) ! (rt ! i) + dm ! (rt ! j) ! (rt ! (j + 1)))
     + (dm ! (rt ! (i - 1)) ! (rt ! j) + dm ! (rt ! i) ! (rt ! (j + 1)))"
proof -
  let ?r = "reverseSegment rt i j"
  let ?n = "length rt"
  let ?f = "\<lambda>k. dm ! (rt ! k) ! (rt ! (k + 1))"
  let ?f' = "\<lambda>k. dm ! (?r ! k) ! (?r ! (k + 1))"
  have jl: "j < ?n" using ij by simp
  have nth: "\<And>k. k < ?n \<Longrightarrow> ?r ! k = (if i \<le> k \<and> k \<le> j then rt ! (i + j - k) else rt ! k)"
    using reverseSegment_nth [OF jl] by blast
  have "length ?r = ?n" by simp
  then have ne: "rt \<noteq> []" "?r \<noteq> []" using ij by (auto simp del: length_reverseSegment)
  have p0: "0 < ?n" and p1: "?n - 1 < ?n" using ij by auto
  have ends: "?r ! 0 = rt ! 0" "?r ! (?n - 1) = rt ! (?n - 1)"
    using nth [OF p0] nth [OF p1] ij by auto
  have lo: "(\<Sum>k<i - 1. ?f' k) = (\<Sum>k<i - 1. ?f k)"
    by (rule sum.cong) (use ij in \<open>auto simp: nth\<close>)
  have hi: "(\<Sum>k = j + 1..<?n - 1. ?f' k) = (\<Sum>k = j + 1..<?n - 1. ?f k)"
    by (rule sum.cong) (use ij in \<open>auto simp: nth\<close>)
  have ri: "?r ! i = rt ! j" "?r ! j = rt ! i" "?r ! (i - 1) = rt ! (i - 1)"
    "?r ! (j + 1) = rt ! (j + 1)"
    using nth [of i] nth [of j] nth [of "i - 1"] nth [of "j + 1"] ij by auto
  have "i - 1 + 1 = i" using ij by simp
  then have e1: "?f' (i - 1) = dm ! (rt ! (i - 1)) ! (rt ! j)"
    using ri by simp
  have e2: "?f' j = dm ! (rt ! i) ! (rt ! (j + 1))"
    using ri by simp
  have "(\<Sum>k = i..<j. ?f' k) = (\<Sum>k = i..<j. ?f (j + i - Suc k))"
  proof (rule sum.cong)
    fix k assume k: "k \<in> {i..<j}"
    then have "?f' k = dm ! (rt ! (i + j - k)) ! (rt ! (i + j - (k + 1)))"
      using ij by (simp add: nth)
    also have "\<dots> = dm ! (rt ! (i + j - (k + 1))) ! (rt ! (i + j - k))"
    proof -
      have "rt ! (i + j - k) \<in> set rt" "rt ! (i + j - (k + 1)) \<in> set rt"
        using k ij by (auto intro!: nth_mem)
      then show ?thesis using sym by blast
    qed
    also have "\<dots> = ?f (j + i - Suc k)"
      using k by (simp add: add.commute Suc_diff_Suc)
    finally show "?f' k = ?f (j + i - Suc k)" .
  qed simp
  also have "\<dots> = (\<Sum>k = i..<j. ?f k)"
    by (rule sum.atLeastLessThan_rev [symmetric])
  finally have mid: "(\<Sum>k = i..<j. ?f' k) = (\<Sum>k = i..<j. ?f k)" .
  have S': "(\<Sum>k<?n - 1. ?f' k) =
      (\<Sum>k<i - 1. ?f k) + dm ! (rt ! (i - 1)) ! (rt ! j) + (\<Sum>k = i..<j. ?f k)
      + dm ! (rt ! i) ! (rt ! (j + 1)) + (\<Sum>k = j + 1..<?n - 1. ?f k)"
    by (simp only: sum_split5 [OF ij, of ?f'] lo hi mid e1 e2)
  have S: "(\<Sum>k<?n - 1. ?f k) =
      (\<Sum>k<i - 1. ?f k) + dm ! (rt ! (i - 1)) ! (rt ! i) + (\<Sum>k = i..<j. ?f k)
      + dm ! (rt ! j) ! (rt ! (j + 1)) + (\<Sum>k = j + 1..<?n - 1. ?f k)"
    by (simp only: sum_split5 [OF ij, of ?f] \<open>i - 1 + 1 = i\<close>)
  have c': "calculateRouteDistance dm ?r =
      dm ! 0 ! (rt ! 0) + (\<Sum>k<?n - 1. ?f' k) + dm ! (rt ! (?n - 1)) ! 0"
    by (simp only: crd_sum [OF ne(2), of dm] ends length_reverseSegment)
  have c: "calculateRouteDistance dm rt =
      dm ! 0 ! (rt ! 0) + (\<Sum>k<?n - 1. ?f k) + dm ! (rt ! (?n - 1)) ! 0"
    by (rule crd_sum [OF ne(1)])
  show ?thesis
    unfolding c c' S S' by linarith
qed

lemma twoOptStep_cases:
  "fst (twoOptStep dm m i j s) = fst s
   \<or> (fst (twoOptStep dm m i j s) = reverseSegment (fst s) i j
      \<and> dm ! (fst s ! (i - 1)) ! (fst s ! j) + dm ! (fst s ! i) ! (fst s ! (j + 1))
          < dm ! (fst s ! (i - 1)) ! (fst s ! i) + dm ! (fst s ! j) ! (fst s ! (j + 1))
      \<and> calculateRouteDistance dm (reverseSegment (fst s) i j) \<le> m)"
  by (simp add: twoOptStep_def Let_def)

lemma twoOptInner_preserves:
  "(\<And>j s. i < j \<Longrightarrow> j + 1 < length (fst s) \<Longrightarrow> P (fst s) \<Longrightarrow>
            P (fst (twoOptStep dm m i j s))) \<Longrightarrow>
   i < j \<Longrightarrow> P (fst s) \<Longrightarrow> P (fst (twoOptInner dm m i j s))"
proof (induction dm m i j s rule: twoOptInner.induct)
  case (1 dm m i j s)
  show ?case
  proof (cases "j < length (fst s) - 1")
    case True
    then have "j + 1 < length (fst s)" by simp
    then have "P (fst (twoOptStep dm m i j s))"
      using "1.prems" by blast
    moreover have "i < j + 1" using "1.prems" by simp
    ultimately have "P (fst (twoOptInner dm m i (j + 1) (twoOptStep dm m i j s)))"
      using "1.IH" [OF True] "1.prems"(1) by blast
    then show ?thesis
      using True by (subst twoOptInner.simps) simp
  next
    case False
    then show ?thesis
      using "1.prems" by (subst twoOptInner.simps) simp
  qed
qed

lemma twoOptOuter_preserves:
  "(\<And>i j s. 1 \<le> i \<Longrightarrow> i < j \<Longrightarrow> j + 1 < length (fst s) \<Longrightarrow> P (fst s) \<Longrightarrow>
            P (fst (twoOptStep dm m i j s))) \<Longrightarrow>
   1 \<le> i \<Longrightarrow> P (fst s) \<Longrightarrow> P (fst (twoOptOuter dm m i s))"
proof (induction dm m i s rule: twoOptOuter.induct)
  case (1 dm m i s)
  show ?case
  proof (cases "i < length (fst s) - 2")
    case True
    have "P (fst (twoOptInner dm m i (i + 1) s))"
      by (rule twoOptInner_preserves [where P = P]) (use "1.prems" in auto)
    moreover have "1 \<le> i + 1" by simp
    ultimately have "P (fst (twoOptOuter dm m (i + 1) (twoOptInner dm m i (i + 1) s)))"
      using "1.IH" [OF True "1.prems"(1)] by blast
    then show ?thesis
      using True by (subst twoOptOuter.simps) simp
  next
    case False
    then show ?thesis
      using "1.prems" by (subst twoOptOuter.simps) simp
  qed
qed

lemma twoOptWhile_preserves:
  "(\<And>i j s. 1 \<le> i \<Longrightarrow> i < j \<Longrightarrow> j + 1 < length (fst s) \<Longrightarrow> P (fst s) \<Longrightarrow>
            P (fst (twoOptStep dm m i j s))) \<Longrightarrow>
   P (fst s) \<Longrightarrow> P (twoOptWhile dm m it s)"
proof (induction dm m it s rule: twoOptWhile.induct)
  case (1 dm m it s)
  show ?case
  proof (cases "snd s \<and> it < maxIterations")
    case True
    have "P (fst (twoOptOuter dm m 1 (fst s, False)))"
      by (rule twoOptOuter_preserves [where P = P]) (use "1.prems" in auto)
    then have "P (twoOptWhile dm m (it + 1) (twoOptOuter dm m 1 (fst s, False)))"
      using "1.IH" [OF True "1.prems"(1)] by blast
    then show ?thesis
      using True by (subst twoOptWhile.simps) simp
  next
    case False
    then show ?thesis
      using "1.prems" by (subst twoOptWhile.simps) auto
  qed
qed

lemma twoOptOptimize_preserves:
  assumes "\<And>i j s. 1 \<le> i \<Longrightarrow> i < j \<Longrightarrow> j + 1 < length (fst s) \<Longrightarrow> P (fst s) \<Longrightarrow>
            P (fst (twoOptStep dm m i j s))"
    and "P rt"
  shows "P (twoOptOptimize dm rt m)"
proof (cases "length rt < 4")
  case True
  then show ?thesis using assms(2) by (simp add: twoOptOptimize_def)
next
  case False
  have "P (twoOptWhile dm m 0 (rt, True))"
    by (rule twoOptWhile_preserves [where P = P]) (use assms in auto)
  then show ?thesis using False by (simp add: twoOptOptimize_def)
qed

lemma mset_twoOptOptimize: "mset (twoOptOptimize dm rt m) = mset rt"
proof (rule twoOptOptimize_preserves [where P = "\<lambda>r. mset r = mset rt"])
  fix i j :: nat and s :: "nat list \<times> bool"
  assume "j + 1 < length (fst s)" "mset (fst s) = mset rt"
  then show "mset (fst (twoOptStep dm m i j s)) = mset rt"
    using twoOptStep_cases [of dm m i j s] mset_reverseSegment [of j "fst s" i] by auto
qed simp

lemma twoOptOptimize_within:
  assumes "calculateRouteDistance dm rt \<le> m"
  shows "calculateRouteDistance dm (twoOptOptimize dm rt m) \<le> m"
proof (rule twoOptOptimize_preserves [where P = "\<lambda>r. calculateRouteDistance dm r \<le> m"])
  fix i j :: nat and s :: "nat list \<times> bool"
  assume "calculateRouteDistance dm (fst s) \<le> m"
  then show "calculateRouteDistance dm (fst (twoOptStep dm m i j s)) \<le> m"
    using twoOptStep_cases [of dm m i j s] by auto
qed (rule assms)

lemma twoOptOptimize_not_longer:
  assumes sym: "\<forall>a \<in> set rt. \<forall>b \<in> set rt. dm ! a ! b = dm ! b ! a"
  shows "calculateRouteDistance dm (twoOptOptimize dm rt m) \<le> calculateRouteDistance dm rt"
proof -
  let ?P = "\<lambda>r. set r = set rt \<and> calculateRouteDistance dm r \<le> calculateRouteDistance dm rt"
  have "?P (twoOptOptimize dm rt m)"
  proof (rule twoOptOptimize_preserves [where P = ?P])
    fix i j :: nat and s :: "nat list \<times> bool"
    assume ij: "1 \<le> i" "i < j" "j + 1 < length (fst s)" and P: "?P (fst s)"
    from P sym have sym': "\<forall>a \<in> set (fst s). \<forall>b \<in> set (fst s). dm ! a ! b = dm ! b ! a"
      by simp
    have "set (reverseSegment (fst s) i j) = set (fst s)"
      using mset_reverseSegment [of j "fst s" i] ij by (metis Suc_eq_plus1 Suc_lessD mset_eq_setD)
    then show "?P (fst (twoOptStep dm m i j s))"
      using twoOptStep_cases [of dm m i j s] crd_reverseSegment [OF sym' ij] P by auto
  qed simp
  then show ?thesis by simp
qed

text \<open>
  With sums computed exactly and a symmetric matrix, a reversal changes the round trip by the
  difference of the two pairs of edges that \<^verbatim>\<open>twoOptOptimize\<close> compares, so the route it
  returns is not longer than the one it was given. The source decides on
  \<^verbatim>\<open>newDist < oldDist\<close>, two sums of two rounded terms, recomputes the round trip of the
  candidate and compares it with \<^verbatim>\<open>maxDistance\<close> only, never with the round trip it had. In
  binary64 the recomputed round trip, a sum of all edges from left to right, can therefore be
  larger than that of the input route by a unit in the last place although
  \<^verbatim>\<open>newDist < oldDist\<close> held: with the symmetric matrix of rows 0, 0.8, 1.5, 0.4;
  0.8, 0, 2.2, 0.9; 1.5, 2.2, 0, 1.6; 0.4, 0.9, 1.6, 0 the route 0-1-2-3 has the round trip 5
  and the route 0-2-1-3 that is returned for it, 5.000000000000001. The first half of claim C7
  is thus a fact of exact arithmetic, stated in the lemma below for the matrices that
  \<^verbatim>\<open>buildDistanceMatrix\<close> builds, and not a theorem about the source.
\<close>

lemma twoOptOptimize_improves_exact:
  assumes "\<forall>k \<in> set rt. k < length zs"
  shows "calculateRouteDistance (buildDistanceMatrix zs)
           (twoOptOptimize (buildDistanceMatrix zs) rt maxDistance)
         \<le> calculateRouteDistance (buildDistanceMatrix zs) rt
     \<and> mset (twoOptOptimize (buildDistanceMatrix zs) rt maxDistance) = mset rt"
proof -
  have "\<forall>a \<in> set rt. \<forall>b \<in> set rt.
      buildDistanceMatrix zs ! a ! b = buildDistanceMatrix zs ! b ! a"
    using assms calculateDistance_sym by (simp add: bdm_nth)
  then show ?thesis
    using twoOptOptimize_not_longer mset_twoOptOptimize by blast
qed

text \<open>
  Whatever the matrix and the ceiling, the route that \<^verbatim>\<open>twoOptOptimize\<close> returns is a
  permutation of the route it was given: it is reached by reversals of segments, and which
  reversals are accepted plays no part.
\<close>

theorem twoOptOptimize_permutes:
  "mset (twoOptOptimize dm rt maxDistance) = mset rt"
  by (rule mset_twoOptOptimize)

section \<open>Properties of the fleet assignment\<close>

lemma markAssigned_props:
  "markAssigned rt (zs, za, del) = (zs', za', del') \<Longrightarrow>
   length zs' = length zs \<and> length za' = length za
   \<and> (\<forall>k. demand (zs' ! k) = demand (zs ! k))
   \<and> (\<forall>k. za ! k \<longrightarrow> za' ! k)
   \<and> (\<forall>k \<in> set rt. k \<noteq> 0 \<longrightarrow> k < length za \<longrightarrow> za' ! k)"
proof (induction rt arbitrary: zs za del)
  case Nil
  then show ?case by simp
next
  case (Cons a rt)
  show ?case
  proof (cases "a \<noteq> 0 \<and> \<not> za ! a")
    case True
    let ?zs = "zs[a := (zs ! a)\<lparr>served := True\<rparr>]"
    let ?za = "za[a := True]"
    from Cons.prems True
    have "markAssigned rt (?zs, ?za, del + demand (zs ! a)) = (zs', za', del')"
      by simp
    from Cons.IH [OF this]
    have ih: "length zs' = length ?zs" "length za' = length ?za"
      "\<forall>k. demand (zs' ! k) = demand (?zs ! k)"
      "\<forall>k. ?za ! k \<longrightarrow> za' ! k"
      "\<forall>k \<in> set rt. k \<noteq> 0 \<longrightarrow> k < length ?za \<longrightarrow> za' ! k"
      by blast+
    have d: "\<forall>k. demand (?zs ! k) = demand (zs ! k)"
      by (metis (no_types, lifting) list_update_beyond not_le nth_list_update_eq nth_list_update_neq
          zone.select_convs(3) zone.surjective zone.update_convs(6))
    have m: "\<forall>k. za ! k \<longrightarrow> ?za ! k"
      by (metis list_update_beyond not_le nth_list_update_eq nth_list_update_neq)
    have "a < length za \<longrightarrow> za' ! a"
      using ih(4) by (metis nth_list_update_eq)
    then show ?thesis
      using ih d m by auto
  next
    case False
    from Cons.prems False
    have "markAssigned rt (zs, za, del) = (zs', za', del')"
      by auto
    from Cons.IH [OF this] False
    show ?thesis by auto
  qed
qed

lemma currentLoad_cong:
  "\<forall>k. demand (zs' ! k) = demand (zs ! k) \<Longrightarrow> currentLoad zs' rt = currentLoad zs rt"
  by (simp add: currentLoad_sum)

lemma availableZonesFor_mem:
  "k \<in> set (availableZonesFor zs za d) \<Longrightarrow> k \<noteq> 0 \<and> k < length zs \<and> \<not> za ! k"
  by (auto simp: availableZonesFor_def)

text \<open>The route a drone is left with after its iteration: the one it had when it is skipped,
  otherwise a rearrangement of the constructed route that stays within the battery range
  when the constructed route does.\<close>

lemma assignDrone_cases:
  assumes "assignDrone dm d zs za = (d', zs', za')"
  obtains (skipped) "d' = d" "zs' = zs" "za' = za"
  | (served) rt del where
      "mset rt = mset (nearestNeighborTSP dm zs (availableZonesFor zs za d) d)"
      "calculateRouteDistance dm (nearestNeighborTSP dm zs (availableZonesFor zs za d) d)
         \<le> batteryCapacity d \<Longrightarrow> calculateRouteDistance dm rt \<le> batteryCapacity d"
      "markAssigned rt (zs, za, 0) = (zs', za', del)"
      "d' = d\<lparr>route := rt, totalDistance := calculateRouteDistance dm rt,
              totalDelivered := del\<rparr>"
proof (cases "length (availableZonesFor zs za d) = 0")
  case True
  then show ?thesis using assms skipped by (simp add: assignDrone_def)
next
  case False
  define rt0 where "rt0 = nearestNeighborTSP dm zs (availableZonesFor zs za d) d"
  define rt where "rt = (if length rt0 > 1 then twoOptOptimize dm rt0 (batteryCapacity d) else rt0)"
  obtain zs1 za1 del where m: "markAssigned rt (zs, za, 0) = (zs1, za1, del)"
    by (metis prod_cases3)
  have 1: "mset rt = mset rt0"
    by (simp add: rt_def mset_twoOptOptimize)
  have 2: "calculateRouteDistance dm rt0 \<le> batteryCapacity d \<Longrightarrow>
      calculateRouteDistance dm rt \<le> batteryCapacity d"
    by (simp add: rt_def twoOptOptimize_within)
  have "assignDrone dm d zs za =
      (d\<lparr>route := rt, totalDistance := calculateRouteDistance dm rt, totalDelivered := del\<rparr>,
       zs1, za1)"
    using False by (simp only: assignDrone_def Let_def rt_def [symmetric] rt0_def [symmetric]
        if_False m prod.case)
  then have 3: "d' = d\<lparr>route := rt, totalDistance := calculateRouteDistance dm rt,
                    totalDelivered := del\<rparr>" "zs' = zs1" "za' = za1"
    using assms by simp_all
  show ?thesis
    using served [of rt del] 1 2 3 m by (simp add: rt0_def)
qed

lemma assignDrone_frame:
  assumes "assignDrone dm d zs za = (d', zs', za')"
  shows "payloadCapacity d' = payloadCapacity d \<and> batteryCapacity d' = batteryCapacity d
     \<and> did d' = did d
     \<and> length zs' = length zs \<and> length za' = length za
     \<and> (\<forall>k. demand (zs' ! k) = demand (zs ! k)) \<and> (\<forall>k. za ! k \<longrightarrow> za' ! k)"
  using assms
proof (cases rule: assignDrone_cases)
  case skipped
  then show ?thesis by simp
next
  case (served rt del)
  from markAssigned_props [OF served(3)] served(4)
  show ?thesis by simp
qed

lemma assignDrone_route:
  assumes a: "assignDrone dm d zs za = (d', zs', za')"
    and len: "length za = length zs" and fresh: "route d = []"
  shows "distinct (route d')
     \<and> (\<forall>k \<in> set (route d'). k \<noteq> 0 \<longrightarrow> k < length za \<and> \<not> za ! k \<and> za' ! k)"
  using a
proof (cases rule: assignDrone_cases)
  case skipped
  then show ?thesis using fresh by simp
next
  case (served rt del)
  let ?rt0 = "nearestNeighborTSP dm zs (availableZonesFor zs za d) d"
  from nearestNeighborTSP_shape [of dm zs "availableZonesFor zs za d" d]
  have sh: "distinct ?rt0" "set ?rt0 \<subseteq> insert 0 (set (availableZonesFor zs za d))"
    by blast+
  have "distinct rt" using served(1) sh(1) by (metis mset_eq_imp_distinct_iff)
  moreover have "set rt = set ?rt0" using served(1) by (metis mset_eq_setD)
  then have "\<forall>k \<in> set rt. k \<noteq> 0 \<longrightarrow> k < length za \<and> \<not> za ! k"
    using sh(2) availableZonesFor_mem len by fastforce
  moreover have "\<forall>k \<in> set rt. k \<noteq> 0 \<longrightarrow> k < length za \<longrightarrow> za' ! k"
    using markAssigned_props [OF served(3)] by blast
  ultimately show ?thesis using served(4) by auto
qed

lemma assignDrone_load:
  assumes a: "assignDrone dm d zs za = (d', zs', za')"
    and fresh: "route d = []" and cap: "0 \<le> payloadCapacity d"
  shows "currentLoad zs (route d') \<le> payloadCapacity d'"
  using a
proof (cases rule: assignDrone_cases)
  case skipped
  then show ?thesis using fresh cap by (simp add: currentLoad_def)
next
  case (served rt del)
  have "currentLoad zs rt = currentLoad zs (nearestNeighborTSP dm zs (availableZonesFor zs za d) d)"
    using served(1) by (rule currentLoad_mset)
  then show ?thesis
    using nearestNeighborTSP_load [OF cap, of zs dm "availableZonesFor zs za d"] served(4) by simp
qed

lemma assignDrone_range:
  assumes a: "assignDrone dm d zs za = (d', zs', za')"
    and fresh: "route d = []" and cap: "0 \<le> batteryCapacity d" and z: "dm ! 0 ! 0 = 0"
  shows "calculateRouteDistance dm (route d') \<le> batteryCapacity d'"
  using a
proof (cases rule: assignDrone_cases)
  case skipped
  then show ?thesis using fresh cap by (simp add: calculateRouteDistance_def)
next
  case (served rt del)
  have "calculateRouteDistance dm rt \<le> batteryCapacity d"
    using nearestNeighborTSP_range [OF cap z] served(2) by blast
  then show ?thesis using served(4) by simp
qed

lemma assignRoutes_Cons:
  assumes "assignRoutes dm (d # ds) zs za = (ds', zs', za')"
  obtains d1 zs1 za1 ds2 where
    "assignDrone dm d zs za = (d1, zs1, za1)"
    "assignRoutes dm ds zs1 za1 = (ds2, zs', za')"
    "ds' = d1 # ds2"
  using assms by (auto split: prod.splits)

lemma assignRoutes_frame:
  "assignRoutes dm ds zs za = (ds', zs', za') \<Longrightarrow>
   length ds' = length ds \<and> length zs' = length zs \<and> length za' = length za
   \<and> (\<forall>k. demand (zs' ! k) = demand (zs ! k)) \<and> (\<forall>k. za ! k \<longrightarrow> za' ! k)"
proof (induction ds arbitrary: zs za ds')
  case Nil
  then show ?case by simp
next
  case (Cons d ds)
  from Cons.prems obtain d1 zs1 za1 ds2 where
    s: "assignDrone dm d zs za = (d1, zs1, za1)"
      "assignRoutes dm ds zs1 za1 = (ds2, zs', za')" "ds' = d1 # ds2"
    by (rule assignRoutes_Cons)
  from assignDrone_frame [OF s(1)] Cons.IH [OF s(2)] s(3)
  show ?case by simp
qed

lemma assignRoutes_routes:
  "assignRoutes dm ds zs za = (ds', zs', za') \<Longrightarrow> length za = length zs \<Longrightarrow>
   \<forall>d \<in> set ds. route d = [] \<Longrightarrow>
   (\<forall>d' \<in> set ds'. distinct (route d')
       \<and> (\<forall>k \<in> set (route d'). k \<noteq> 0 \<longrightarrow> k < length za \<and> \<not> za ! k \<and> za' ! k))
   \<and> (\<forall>a b. a < b \<longrightarrow> b < length ds' \<longrightarrow>
         set (route (ds' ! a)) \<inter> set (route (ds' ! b)) \<subseteq> {0})"
proof (induction ds arbitrary: zs za ds')
  case Nil
  then show ?case by simp
next
  case (Cons d ds)
  from Cons.prems(1) obtain d1 zs1 za1 ds2 where
    s: "assignDrone dm d zs za = (d1, zs1, za1)"
      "assignRoutes dm ds zs1 za1 = (ds2, zs', za')" "ds' = d1 # ds2"
    by (rule assignRoutes_Cons)
  have f1: "length zs1 = length zs" "length za1 = length za" "\<forall>k. za ! k \<longrightarrow> za1 ! k"
    using assignDrone_frame [OF s(1)] by simp_all
  have f2: "\<forall>k. za1 ! k \<longrightarrow> za' ! k"
    using assignRoutes_frame [OF s(2)] by simp
  have hd: "distinct (route d1)"
    "\<forall>k \<in> set (route d1). k \<noteq> 0 \<longrightarrow> k < length za \<and> \<not> za ! k \<and> za1 ! k"
    using assignDrone_route [OF s(1) Cons.prems(2)] Cons.prems(3) by simp_all
  have ih: "\<forall>d' \<in> set ds2. distinct (route d')
       \<and> (\<forall>k \<in> set (route d'). k \<noteq> 0 \<longrightarrow> k < length za1 \<and> \<not> za1 ! k \<and> za' ! k)"
    "\<forall>a b. a < b \<longrightarrow> b < length ds2 \<longrightarrow> set (route (ds2 ! a)) \<inter> set (route (ds2 ! b)) \<subseteq> {0}"
    using Cons.IH [OF s(2)] f1 Cons.prems(2,3) by simp_all
  have each: "\<forall>d' \<in> set ds'. distinct (route d')
       \<and> (\<forall>k \<in> set (route d'). k \<noteq> 0 \<longrightarrow> k < length za \<and> \<not> za ! k \<and> za' ! k)"
    unfolding s(3) using hd ih(1) f1 f2 by (metis set_ConsD)
  have pair: "set (route (ds' ! a)) \<inter> set (route (ds' ! b)) \<subseteq> {0}"
    if ab: "a < b" "b < length ds'" for a b
  proof (cases a)
    case 0
    then obtain b' where b: "b = Suc b'" "b' < length ds2"
      using ab s(3) by (cases b) auto
    then have "ds2 ! b' \<in> set ds2" by simp
    then have "\<forall>k \<in> set (route (ds2 ! b')). k \<noteq> 0 \<longrightarrow> \<not> za1 ! k"
      using ih(1) by blast
    then show ?thesis
      using hd(2) 0 b s(3) by auto
  next
    case (Suc a')
    then obtain b' where b: "b = Suc b'" "a' < b'" "b' < length ds2"
      using ab s(3) by (cases b) auto
    then show ?thesis
      using ih(2) Suc s(3) by simp
  qed
  show ?case using each pair by blast
qed

lemma assignRoutes_load:
  "assignRoutes dm ds zs za = (ds', zs', za') \<Longrightarrow>
   \<forall>d \<in> set ds. route d = [] \<and> 0 \<le> payloadCapacity d \<Longrightarrow>
   \<forall>d' \<in> set ds'. currentLoad zs (route d') \<le> payloadCapacity d'"
proof (induction ds arbitrary: zs za ds')
  case Nil
  then show ?case by simp
next
  case (Cons d ds)
  from Cons.prems(1) obtain d1 zs1 za1 ds2 where
    s: "assignDrone dm d zs za = (d1, zs1, za1)"
      "assignRoutes dm ds zs1 za1 = (ds2, zs', za')" "ds' = d1 # ds2"
    by (rule assignRoutes_Cons)
  have "currentLoad zs (route d1) \<le> payloadCapacity d1"
    using assignDrone_load [OF s(1)] Cons.prems(2) by simp
  moreover have "\<forall>d' \<in> set ds2. currentLoad zs1 (route d') \<le> payloadCapacity d'"
    using Cons.IH [OF s(2)] Cons.prems(2) by simp
  moreover have "\<And>rt. currentLoad zs1 rt = currentLoad zs rt"
    using assignDrone_frame [OF s(1)] by (intro currentLoad_cong) simp
  ultimately show ?case using s(3) by simp
qed

lemma assignRoutes_range:
  "assignRoutes dm ds zs za = (ds', zs', za') \<Longrightarrow> dm ! 0 ! 0 = 0 \<Longrightarrow>
   \<forall>d \<in> set ds. route d = [] \<and> 0 \<le> batteryCapacity d \<Longrightarrow>
   \<forall>d' \<in> set ds'. calculateRouteDistance dm (route d') \<le> batteryCapacity d'"
proof (induction ds arbitrary: zs za ds')
  case Nil
  then show ?case by simp
next
  case (Cons d ds)
  from Cons.prems(1) obtain d1 zs1 za1 ds2 where
    s: "assignDrone dm d zs za = (d1, zs1, za1)"
      "assignRoutes dm ds zs1 za1 = (ds2, zs', za')" "ds' = d1 # ds2"
    by (rule assignRoutes_Cons)
  have "calculateRouteDistance dm (route d1) \<le> batteryCapacity d1"
    using assignDrone_range [OF s(1)] Cons.prems(2,3) by simp
  moreover have "\<forall>d' \<in> set ds2. calculateRouteDistance dm (route d') \<le> batteryCapacity d'"
    using Cons.IH [OF s(2) Cons.prems(2)] Cons.prems(3) by simp
  ultimately show ?case using s(3) by simp
qed

text \<open>What a call of \<^verbatim>\<open>optimize\<close> that returns has done.\<close>

lemma length_insertZone [simp]: "length (insertZone z zs) = Suc (length zs)"
  by (induction zs) simp_all

lemma length_sortZones [simp]: "length (sortZones zs) = length zs"
  by (induction zs) (simp_all add: sortZones_def)

lemma optimize_Inr:
  assumes "optimize st = Inr (st', res)"
  obtains zs1 za0 za' where
    "zones st \<noteq> []"
    "length zs1 = length (zones st)" "length za0 = length zs1"
    "assignRoutes (buildDistanceMatrix (zones st)) (drones st) zs1 za0
       = (drones st', zones st', za')"
    "distanceMatrix st' = buildDistanceMatrix (zones st)"
    "res = getResults (zones st') (drones st')"
proof (cases "zones st")
  case Nil
  then show ?thesis
    using assms by (simp add: optimize_def sortZonesByPriority_def)
next
  case (Cons b others)
  define zs0 where "zs0 = map (\<lambda>z. z\<lparr>served := False\<rparr>) (b # sortZones others)"
  define zs1 where "zs1 = zs0[0 := (zs0 ! 0)\<lparr>served := True\<rparr>]"
  define za0 where "za0 = (replicate (length zs1) False)[0 := True]"
  obtain ds' zs' za' where
    r: "assignRoutes (buildDistanceMatrix (zones st)) (drones st) zs1 za0 = (ds', zs', za')"
    by (metis prod_cases3)
  have "optimize st =
      Inr (st\<lparr>zones := zs', drones := ds', distanceMatrix := buildDistanceMatrix (zones st)\<rparr>,
           getResults zs' ds')"
    unfolding optimize_def sortZonesByPriority_def Let_def
    by (simp only: Cons list.case option.case zs0_def [symmetric] zs1_def [symmetric]
        za0_def [symmetric] r [unfolded Cons] prod.case)
  then have "st' = st\<lparr>zones := zs', drones := ds',
                distanceMatrix := buildDistanceMatrix (zones st)\<rparr>"
    "res = getResults zs' ds'"
    using assms by simp_all
  moreover have "length zs1 = length (zones st)" "length za0 = length zs1"
    by (simp_all add: zs1_def zs0_def za0_def Cons)
  ultimately show ?thesis
    using that [of zs1 za0 za'] r Cons by simp
qed

lemma buildDistanceMatrix_origin: "zs \<noteq> [] \<Longrightarrow> buildDistanceMatrix zs ! 0 ! 0 = 0"
  by (simp add: bdm_nth)

text \<open>
  What a call does guarantee when no drone brings a route of an earlier call with it: if every
  drone comes from the constructor (empty route) and has a payload capacity that is not
  negative, then after a call that returns the demands of the stops of every route add up to
  at most the payload capacity of its drone. The construction checks the load before every
  stop it adds, and the improvement only permutes the stops. Demands are integers here; the
  sums of the source are the same as long as they stay below \<open>2^53\<close>.
\<close>

theorem optimize_capacity_fresh_fleet:
  assumes "optimize st = Inr (st', res)"
    and "\<forall>d \<in> set (drones st). route d = [] \<and> 0 \<le> payloadCapacity d"
  shows "\<forall>d \<in> set (drones st'). currentLoad (zones st') (route d) \<le> payloadCapacity d"
proof -
  from assms(1) obtain zs1 za0 za' where
    r: "assignRoutes (buildDistanceMatrix (zones st)) (drones st) zs1 za0
         = (drones st', zones st', za')"
    by (rule optimize_Inr)
  have "\<And>rt. currentLoad (zones st') rt = currentLoad zs1 rt"
    using assignRoutes_frame [OF r] by (intro currentLoad_cong) simp
  then show ?thesis
    using assignRoutes_load [OF r assms(2)] by simp
qed

text \<open>
  The construction and the improvement do keep a route within the battery capacity, in exact
  arithmetic and in the matrix they are given. That matrix is built from the requests in the
  order of insertion, while a route holds positions of the sorted request list, so the bound
  below is not a bound on the way from the base through the stops of the route and back; see
  \<open>optimize_stEx\<close> further down for a route that satisfies it and is out of range.
\<close>

lemma optimize_range_call_matrix:
  assumes "optimize st = Inr (st', res)"
    and "\<forall>d \<in> set (drones st). route d = [] \<and> 0 \<le> batteryCapacity d"
  shows "\<forall>d \<in> set (drones st').
           calculateRouteDistance (distanceMatrix st') (route d) \<le> batteryCapacity d"
proof -
  from assms(1) obtain zs1 za0 za' where
    r: "zones st \<noteq> []"
      "assignRoutes (buildDistanceMatrix (zones st)) (drones st) zs1 za0
         = (drones st', zones st', za')"
      "distanceMatrix st' = buildDistanceMatrix (zones st)"
    by (rule optimize_Inr)
  show ?thesis
    using assignRoutes_range [OF r(2) buildDistanceMatrix_origin [OF r(1)] assms(2)] r(3)
    by simp
qed

text \<open>
  What a call does guarantee when no drone brings a route of an earlier call with it: on a
  fleet whose drones come from the constructor, after a call that returns no route holds a
  request twice, every route entry is a position of the request list, and two different
  drones have no request in common: the only entry two routes can share is position 0, the
  base. A route entry is the position of the request in the sorted request list, which is how
  the source names a request in a route.
\<close>

theorem optimize_exclusive_fresh_fleet:
  assumes "optimize st = Inr (st', res)"
    and "\<forall>d \<in> set (drones st). route d = []"
  shows "(\<forall>d \<in> set (drones st'). distinct (route d) \<and> set (route d) \<subseteq> {..<length (zones st')})
     \<and> (\<forall>a b. a < b \<longrightarrow> b < length (drones st') \<longrightarrow>
           set (route (drones st' ! a)) \<inter> set (route (drones st' ! b)) \<subseteq> {0})"
proof -
  from assms(1) obtain zs1 za0 za' where
    r: "zones st \<noteq> []" "length zs1 = length (zones st)" "length za0 = length zs1"
      "assignRoutes (buildDistanceMatrix (zones st)) (drones st) zs1 za0
         = (drones st', zones st', za')"
    by (rule optimize_Inr)
  have len: "length (zones st') = length za0" "0 < length za0"
    using assignRoutes_frame [OF r(4)] r(1,2,3) by simp_all
  from assignRoutes_routes [OF r(4) r(3) assms(2)]
  have each: "\<forall>d' \<in> set (drones st'). distinct (route d')
       \<and> (\<forall>k \<in> set (route d'). k \<noteq> 0 \<longrightarrow> k < length za0)"
    and pair: "\<forall>a b. a < b \<longrightarrow> b < length (drones st') \<longrightarrow>
         set (route (drones st' ! a)) \<inter> set (route (drones st' ! b)) \<subseteq> {0}"
    by blast+
  have "\<forall>d' \<in> set (drones st'). set (route d') \<subseteq> {..<length (zones st')}"
    using each len by (metis lessThan_iff subsetI)
  then show ?thesis using each pair by blast
qed

section \<open>Evaluating the functions on the example inputs\<close>

lemma optimize_eq:
  assumes "zones st = b # others"
    and "assignRoutes (buildDistanceMatrix (zones st)) (drones st)
           (b\<lparr>served := True\<rparr> # map (\<lambda>z. z\<lparr>served := False\<rparr>) (sortZones others))
           (True # replicate (length others) False) = (ds', zs', za')"
  shows "optimize st =
     Inr (st\<lparr>zones := zs', drones := ds', distanceMatrix := buildDistanceMatrix (zones st)\<rparr>,
          getResults zs' ds')"
  using assms by (simp add: optimize_def sortZonesByPriority_def Let_def)

lemma assignDrone_eq:
  assumes "availableZonesFor zs za d = av" "av \<noteq> []"
    and "nearestNeighborTSP dm zs av d = rt0"
    and "(if length rt0 > 1 then twoOptOptimize dm rt0 (batteryCapacity d) else rt0) = rt"
    and "markAssigned rt (zs, za, 0) = (zs', za', del)"
  shows "assignDrone dm d zs za =
     (d\<lparr>route := rt, totalDistance := calculateRouteDistance dm rt, totalDelivered := del\<rparr>,
      zs', za')"
  using assms by (simp add: assignDrone_def Let_def)

lemma nnLoop_stop:
  "findNearest dm zs av d rt vis cur cd = None \<Longrightarrow> nnLoop dm zs av d rt vis cur cd = rt"
  by (subst nnLoop.simps) simp

lemma nnLoop_go:
  "findNearest dm zs av d rt vis cur cd = Some n \<Longrightarrow>
   nnLoop dm zs av d rt vis cur cd = nnLoop dm zs av d (rt @ [n]) (vis @ [n]) n (cd + dm ! cur ! n)"
  by (subst nnLoop.simps) simp

lemma far_bounds: "12742 \<le> far" "far < 25484"
  using pi_ge_two pi_less_4 by (simp_all add: far_def)

lemma calculateDistance_same: "calculateDistance a b a b = 0"
  by (simp add: calculateDistance_def toRad_def atan2_def Let_def)

lemma calculateDistance_half: "calculateDistance 0 0 0 180 = far" "calculateDistance 0 180 0 0 = far"
  by (simp_all add: calculateDistance_def toRad_def atan2_def Let_def far_def)

lemma stEx_eq:
  "stEx = \<lparr>zones = [zBase, zFar, zNear], drones = [Drone 1 100 50, Drone 2 60000 50],
           distanceMatrix = [], baseLocation = Some (0, 0)\<rparr>"
  by (simp add: stEx_def addDrone_def addZone_def setBase_def newOptimizer_def Zone_def
      zBase_def zFar_def zNear_def)

lemma dmEx_built: "buildDistanceMatrix [zBase, zFar, zNear] = dmEx"
  by (simp add: dmEx_def buildDistanceMatrix_def Let_def upt_conv_Cons zBase_def zFar_def
      zNear_def calculateDistance_half calculateDistance_same)

lemma sortEx: "sortZones [zFar, zNear] = [zNear, zFar]"
  by (simp add: sortZones_def compareZones_def zFar_def zNear_def)

lemma find1: "findNearest dmEx zsEx [Suc 0, 2] (Drone 1 100 50) [0] [0] 0 0 = Some 2"
  using far_bounds
  by (simp add: findNearest_def scanZone_def Let_def dmEx_def zsEx_def Drone_def currentLoad_def
      zBase_def zNear_def zFar_def js_div_def)

lemma find2: "findNearest dmEx zsEx [Suc 0, 2] (Drone 1 100 50) [0, 2] [0, 2] 2 0 = None"
  using far_bounds
  by (simp add: findNearest_def scanZone_def Let_def dmEx_def zsEx_def Drone_def currentLoad_def
      zBase_def zNear_def zFar_def js_div_def)

lemma nn1: "nearestNeighborTSP dmEx zsEx [Suc 0, 2] (Drone 1 100 50) = [0, 2]"
proof -
  have "dmEx ! 0 ! 2 = 0" by (simp add: dmEx_def)
  then show ?thesis
    using nnLoop_go [OF find1] nnLoop_stop [OF find2]
    by (simp add: nearestNeighborTSP_def)
qed

lemma assign1:
  "assignDrone dmEx (Drone 1 100 50) zsEx [True, False, False] =
     ((Drone 1 100 50)\<lparr>route := [0, 2], totalDistance := 0, totalDelivered := 10\<rparr>,
      zsEx1, [True, False, True])"
proof -
  have av: "availableZonesFor zsEx [True, False, False] (Drone 1 100 50) = [Suc 0, 2]"
    by (simp add: availableZonesFor_def zsEx_def upt_conv_Cons Drone_def zBase_def zNear_def
        zFar_def)
  have m: "markAssigned [0, 2] (zsEx, [True, False, False], 0) = (zsEx1, [True, False, True], 10)"
    by (simp add: zsEx_def zsEx1_def zFar_def)
  have c: "calculateRouteDistance dmEx [0, 2] = 0"
    by (simp add: calculateRouteDistance_def dmEx_def)
  have o: "(if length [0, 2::nat] > 1
            then twoOptOptimize dmEx [0, 2] (batteryCapacity (Drone 1 100 50)) else [0, 2]) = [0, 2]"
    by (simp add: twoOptOptimize_def)
  show ?thesis
    using assignDrone_eq [OF av _ nn1 o m] c by simp
qed

lemma find3: "findNearest dmEx zsEx1 [Suc 0] (Drone 2 60000 50) [0] [0] 0 0 = Some 1"
  using far_bounds
  by (simp add: findNearest_def scanZone_def Let_def dmEx_def zsEx1_def Drone_def currentLoad_def
      zBase_def zNear_def zFar_def js_div_def)

lemma find4: "findNearest dmEx zsEx1 [Suc 0] (Drone 2 60000 50) [0, 1] [0, 1] 1 far = None"
  by (simp add: findNearest_def scanZone_def)

lemma nn2: "nearestNeighborTSP dmEx zsEx1 [Suc 0] (Drone 2 60000 50) = [0, 1]"
proof -
  have "dmEx ! 0 ! 1 = far" by (simp add: dmEx_def)
  then show ?thesis
    using nnLoop_go [OF find3] nnLoop_stop [OF find4]
    by (simp add: nearestNeighborTSP_def)
qed

lemma assign2:
  "assignDrone dmEx (Drone 2 60000 50) zsEx1 [True, False, True] =
     ((Drone 2 60000 50)\<lparr>route := [0, 1], totalDistance := 2 * far, totalDelivered := 10\<rparr>,
      zsEx2, [True, True, True])"
proof -
  have av: "availableZonesFor zsEx1 [True, False, True] (Drone 2 60000 50) = [Suc 0]"
    by (simp add: availableZonesFor_def zsEx1_def upt_conv_Cons Drone_def zBase_def zNear_def
        zFar_def)
  have m: "markAssigned [0, 1] (zsEx1, [True, False, True], 0) = (zsEx2, [True, True, True], 10)"
    by (simp add: zsEx1_def zsEx2_def zNear_def)
  have c: "calculateRouteDistance dmEx [0, 1] = 2 * far"
    by (simp add: calculateRouteDistance_def dmEx_def)
  have o: "(if length [0, 1::nat] > 1
            then twoOptOptimize dmEx [0, 1] (batteryCapacity (Drone 2 60000 50)) else [0, 1]) = [0, 1]"
    by (simp add: twoOptOptimize_def)
  show ?thesis
    using assignDrone_eq [OF av _ nn2 o m] c by simp
qed

lemma optimize_stEx: "optimize stEx = Inr (stEx1, getResults zsEx2 dronesEx1)"
proof -
  have z: "zones stEx = zBase # [zFar, zNear]"
    and d: "drones stEx = [Drone 1 100 50, Drone 2 60000 50]"
    by (simp_all add: stEx_eq)
  have zs: "zBase\<lparr>served := True\<rparr> # map (\<lambda>z. z\<lparr>served := False\<rparr>) (sortZones [zFar, zNear]) = zsEx"
    unfolding sortEx by (simp add: zsEx_def zNear_def zFar_def)
  have za: "True # replicate (length [zFar, zNear]) False = [True, False, False]"
    by simp
  have ar: "assignRoutes dmEx [Drone 1 100 50, Drone 2 60000 50] zsEx [True, False, False]
      = (dronesEx1, zsEx2, [True, True, True])"
    by (simp add: assign1 assign2 dronesEx1_def)
  have "assignRoutes (buildDistanceMatrix (zones stEx)) (drones stEx)
           (zBase\<lparr>served := True\<rparr> # map (\<lambda>z. z\<lparr>served := False\<rparr>) (sortZones [zFar, zNear]))
           (True # replicate (length [zFar, zNear]) False) = (dronesEx1, zsEx2, [True, True, True])"
    unfolding z d dmEx_built zs za by (rule ar)
  from optimize_eq [OF z this]
  show ?thesis
    by (simp add: stEx1_def stEx_eq dmEx_built)
qed

theorem optimize_capacity_fresh_fleet_witness:
  "optimize stEx = Inr (stEx1, getResults zsEx2 dronesEx1)
   \<and> drones stEx = [Drone 1 100 50, Drone 2 60000 50]
   \<and> route (Drone 1 100 50) = [] \<and> 0 \<le> payloadCapacity (Drone 1 100 50)
   \<and> route (Drone 2 60000 50) = [] \<and> 0 \<le> payloadCapacity (Drone 2 60000 50)
   \<and> drones stEx1 = dronesEx1
   \<and> currentLoad (zones stEx1) (route (dronesEx1 ! 0)) \<le> payloadCapacity (dronesEx1 ! 0)
   \<and> currentLoad (zones stEx1) (route (dronesEx1 ! 1)) \<le> payloadCapacity (dronesEx1 ! 1)
   \<and> route (dronesEx1 ! 0) = [0, 2] \<and> currentLoad (zones stEx1) [0, 2] = 10
   \<and> payloadCapacity (dronesEx1 ! 0) = 50"
proof -
  have h: "\<forall>d \<in> set (drones stEx). route d = [] \<and> 0 \<le> payloadCapacity d"
    by (simp add: stEx_eq Drone_def)
  have d: "drones stEx1 = dronesEx1" by (simp add: stEx1_def)
  from optimize_capacity_fresh_fleet [OF optimize_stEx h]
  have "currentLoad (zones stEx1) (route (dronesEx1 ! 0)) \<le> payloadCapacity (dronesEx1 ! 0)"
    "currentLoad (zones stEx1) (route (dronesEx1 ! 1)) \<le> payloadCapacity (dronesEx1 ! 1)"
    by (simp_all add: d dronesEx1_def)
  moreover have "currentLoad (zones stEx1) [0, 2] = 10"
    by (simp add: stEx1_def zsEx2_def currentLoad_def zFar_def)
  ultimately show ?thesis
    using optimize_stEx d by (simp add: stEx_eq Drone_def dronesEx1_def)
qed

lemma optimize_range_call_matrix_witness:
  "optimize stEx = Inr (stEx1, getResults zsEx2 dronesEx1)
   \<and> drones stEx = [Drone 1 100 50, Drone 2 60000 50]
   \<and> route (Drone 1 100 50) = [] \<and> 0 \<le> batteryCapacity (Drone 1 100 50)
   \<and> route (Drone 2 60000 50) = [] \<and> 0 \<le> batteryCapacity (Drone 2 60000 50)
   \<and> drones stEx1 = dronesEx1
   \<and> calculateRouteDistance (distanceMatrix stEx1) (route (dronesEx1 ! 0))
        \<le> batteryCapacity (dronesEx1 ! 0)
   \<and> calculateRouteDistance (distanceMatrix stEx1) (route (dronesEx1 ! 1))
        \<le> batteryCapacity (dronesEx1 ! 1)
   \<and> route (dronesEx1 ! 1) = [0, 1]
   \<and> calculateRouteDistance (distanceMatrix stEx1) [0, 1] = 2 * far
   \<and> batteryCapacity (dronesEx1 ! 1) = 60000"
proof -
  have h: "\<forall>d \<in> set (drones stEx). route d = [] \<and> 0 \<le> batteryCapacity d"
    by (simp add: stEx_eq Drone_def)
  have d: "drones stEx1 = dronesEx1" by (simp add: stEx1_def)
  from optimize_range_call_matrix [OF optimize_stEx h]
  have "calculateRouteDistance (distanceMatrix stEx1) (route (dronesEx1 ! 0))
        \<le> batteryCapacity (dronesEx1 ! 0)"
    "calculateRouteDistance (distanceMatrix stEx1) (route (dronesEx1 ! 1))
        \<le> batteryCapacity (dronesEx1 ! 1)"
    by (simp_all add: d dronesEx1_def)
  moreover have "calculateRouteDistance (distanceMatrix stEx1) [0, 1] = 2 * far"
    by (simp add: stEx1_def dmEx_def calculateRouteDistance_def)
  ultimately show ?thesis
    using optimize_stEx d by (simp add: stEx_eq Drone_def dronesEx1_def)
qed

theorem optimize_exclusive_fresh_fleet_witness:
  "optimize stEx = Inr (stEx1, getResults zsEx2 dronesEx1)
   \<and> drones stEx = [Drone 1 100 50, Drone 2 60000 50]
   \<and> route (Drone 1 100 50) = [] \<and> route (Drone 2 60000 50) = []
   \<and> drones stEx1 = dronesEx1 \<and> length (zones stEx1) = 3
   \<and> distinct (route (dronesEx1 ! 0)) \<and> distinct (route (dronesEx1 ! 1))
   \<and> set (route (dronesEx1 ! 0)) \<subseteq> {..<3} \<and> set (route (dronesEx1 ! 1)) \<subseteq> {..<3}
   \<and> set (route (dronesEx1 ! 0)) \<inter> set (route (dronesEx1 ! 1)) \<subseteq> {0}
   \<and> route (dronesEx1 ! 0) = [0, 2] \<and> route (dronesEx1 ! 1) = [0, 1]"
proof -
  have h: "\<forall>d \<in> set (drones stEx). route d = []"
    by (simp add: stEx_eq Drone_def)
  have d: "drones stEx1 = dronesEx1" and l: "length (zones stEx1) = 3"
    by (simp_all add: stEx1_def zsEx2_def)
  have m: "dronesEx1 ! 0 \<in> set dronesEx1" "dronesEx1 ! 1 \<in> set dronesEx1"
    "(0::nat) < 1" "1 < length dronesEx1"
    by (simp_all add: dronesEx1_def)
  from optimize_exclusive_fresh_fleet [OF optimize_stEx h] m
  have "distinct (route (dronesEx1 ! 0))" "distinct (route (dronesEx1 ! 1))"
    "set (route (dronesEx1 ! 0)) \<subseteq> {..<3}" "set (route (dronesEx1 ! 1)) \<subseteq> {..<3}"
    "set (route (dronesEx1 ! 0)) \<inter> set (route (dronesEx1 ! 1)) \<subseteq> {0}"
    unfolding d l by blast+
  then show ?thesis
    using optimize_stEx d l by (simp add: stEx_eq Drone_def dronesEx1_def)
qed

text \<open>The second call, on the state that the first call left.\<close>

lemma dmEx'_built: "buildDistanceMatrix zsEx2 = dmEx'"
  by (simp add: dmEx'_def zsEx2_def buildDistanceMatrix_def Let_def upt_conv_Cons zBase_def
      zFar_def zNear_def calculateDistance_half calculateDistance_same)

lemma sortEx': "sortZones [zNear\<lparr>served := True\<rparr>, zFar\<lparr>served := True\<rparr>]
    = [zNear\<lparr>served := True\<rparr>, zFar\<lparr>served := True\<rparr>]"
  by (simp add: sortZones_def compareZones_def zFar_def zNear_def)

lemma find5: "findNearest dmEx' zsEx [Suc 0, 2] droneA [0] [0] 0 0 = Some 1"
  using far_bounds
  by (simp add: findNearest_def scanZone_def Let_def dmEx'_def zsEx_def droneA_def Drone_def
      currentLoad_def zBase_def zNear_def zFar_def js_div_def)

lemma find6: "findNearest dmEx' zsEx [Suc 0, 2] droneA [0, 1] [0, 1] 1 0 = None"
  using far_bounds
  by (simp add: findNearest_def scanZone_def Let_def dmEx'_def zsEx_def droneA_def Drone_def
      currentLoad_def zBase_def zNear_def zFar_def js_div_def)

lemma nn3: "nearestNeighborTSP dmEx' zsEx [Suc 0, 2] droneA = [0, 1]"
proof -
  have "dmEx' ! 0 ! 1 = 0" by (simp add: dmEx'_def)
  then show ?thesis
    using nnLoop_go [OF find5] nnLoop_stop [OF find6]
    by (simp add: nearestNeighborTSP_def)
qed

lemma assign3:
  "assignDrone dmEx' droneA zsEx [True, False, False] =
     (droneA\<lparr>route := [0, 1], totalDistance := 0, totalDelivered := 10\<rparr>,
      zsEx3, [True, True, False])"
proof -
  have av: "availableZonesFor zsEx [True, False, False] droneA = [Suc 0, 2]"
    by (simp add: availableZonesFor_def zsEx_def upt_conv_Cons droneA_def Drone_def zBase_def
        zNear_def zFar_def)
  have m: "markAssigned [0, 1] (zsEx, [True, False, False], 0) = (zsEx3, [True, True, False], 10)"
    by (simp add: zsEx_def zsEx3_def zNear_def)
  have c: "calculateRouteDistance dmEx' [0, 1] = 0"
    by (simp add: calculateRouteDistance_def dmEx'_def)
  have o: "(if length [0, 1::nat] > 1
            then twoOptOptimize dmEx' [0, 1] (batteryCapacity droneA) else [0, 1]) = [0, 1]"
    by (simp add: twoOptOptimize_def)
  show ?thesis
    using assignDrone_eq [OF av _ nn3 o m] c by simp
qed

lemma find7: "findNearest dmEx' zsEx3 [2] droneB [0] [0] 0 0 = Some 2"
  using far_bounds
  by (simp add: findNearest_def scanZone_def Let_def dmEx'_def zsEx3_def droneB_def Drone_def
      currentLoad_def zBase_def zNear_def zFar_def js_div_def)

lemma find8: "findNearest dmEx' zsEx3 [2] droneB [0, 2] [0, 2] 2 far = None"
  by (simp add: findNearest_def scanZone_def)

lemma nn4: "nearestNeighborTSP dmEx' zsEx3 [2] droneB = [0, 2]"
proof -
  have "dmEx' ! 0 ! 2 = far" by (simp add: dmEx'_def)
  then show ?thesis
    using nnLoop_go [OF find7] nnLoop_stop [OF find8]
    by (simp add: nearestNeighborTSP_def)
qed

lemma assign4:
  "assignDrone dmEx' droneB zsEx3 [True, True, False] =
     (droneB\<lparr>route := [0, 2], totalDistance := 2 * far, totalDelivered := 10\<rparr>,
      zsEx2, [True, True, True])"
proof -
  have av: "availableZonesFor zsEx3 [True, True, False] droneB = [2]"
    by (simp add: availableZonesFor_def zsEx3_def upt_conv_Cons droneB_def Drone_def zBase_def
        zNear_def zFar_def)
  have m: "markAssigned [0, 2] (zsEx3, [True, True, False], 0) = (zsEx2, [True, True, True], 10)"
    by (simp add: zsEx3_def zsEx2_def zFar_def)
  have c: "calculateRouteDistance dmEx' [0, 2] = 2 * far"
    by (simp add: calculateRouteDistance_def dmEx'_def)
  have o: "(if length [0, 2::nat] > 1
            then twoOptOptimize dmEx' [0, 2] (batteryCapacity droneB) else [0, 2]) = [0, 2]"
    by (simp add: twoOptOptimize_def)
  show ?thesis
    using assignDrone_eq [OF av _ nn4 o m] c by simp
qed

lemma optimize_stEx1: "optimize stEx1 = Inr (stEx2, getResults zsEx2 dronesEx2)"
proof -
  have z: "zones stEx1 = zBase\<lparr>served := True\<rparr> # [zNear\<lparr>served := True\<rparr>, zFar\<lparr>served := True\<rparr>]"
    and d: "drones stEx1 = [droneA, droneB]"
    by (simp_all add: stEx1_def zsEx2_def dronesEx1_def droneA_def droneB_def)
  have zs: "zBase\<lparr>served := True\<rparr>\<lparr>served := True\<rparr> # map (\<lambda>z. z\<lparr>served := False\<rparr>)
       (sortZones [zNear\<lparr>served := True\<rparr>, zFar\<lparr>served := True\<rparr>]) = zsEx"
    unfolding sortEx' by (simp add: zsEx_def zNear_def zFar_def)
  have za: "True # replicate (length [zNear\<lparr>served := True\<rparr>, zFar\<lparr>served := True\<rparr>]) False
      = [True, False, False]"
    by simp
  have ar: "assignRoutes dmEx' [droneA, droneB] zsEx [True, False, False]
      = (dronesEx2, zsEx2, [True, True, True])"
    by (simp add: assign3 assign4 dronesEx2_def)
  have b: "buildDistanceMatrix (zones stEx1) = dmEx'"
    using dmEx'_built by (simp add: stEx1_def)
  have "assignRoutes (buildDistanceMatrix (zones stEx1)) (drones stEx1)
           (zBase\<lparr>served := True\<rparr>\<lparr>served := True\<rparr> # map (\<lambda>z. z\<lparr>served := False\<rparr>)
              (sortZones [zNear\<lparr>served := True\<rparr>, zFar\<lparr>served := True\<rparr>]))
           (True # replicate (length [zNear\<lparr>served := True\<rparr>, zFar\<lparr>served := True\<rparr>]) False)
         = (dronesEx2, zsEx2, [True, True, True])"
    unfolding b d zs za by (rule ar)
  from optimize_eq [OF z this]
  show ?thesis
    by (simp add: stEx2_def stEx1_def dmEx'_built)
qed

text \<open>
  Claim C9. Two calls on equal states give equal results, the model being a function. The
  second half of the claim, that a second call on the same instance reproduces the routes of
  the first, fails: the first call builds the matrix from the requests in insertion order and
  then sorts them, so the route positions of the first call are read in a matrix of another
  order; it leaves the requests sorted, and the second call builds the matrix of the sorted
  order. On \<open>stEx\<close> the first call gives the routes 0-2 and 0-1, the second call, on the
  state the first one left, the routes 0-1 and 0-2, over the same request list. The route 0-2
  that the first call gives the first drone has length 0 in the matrix of that call and
  \<open>2 * far\<close> in the matrix of the sorted requests, beyond the drone's battery capacity.
\<close>

theorem optimize_twice_differs:
  "optimize stEx = Inr (stEx1, getResults zsEx2 dronesEx1)
   \<and> optimize stEx1 = Inr (stEx2, getResults zsEx2 dronesEx2)
   \<and> map route (drones stEx1) = [[0, 2], [0, 1]]
   \<and> map route (drones stEx2) = [[0, 1], [0, 2]]
   \<and> zones stEx2 = zones stEx1
   \<and> distanceMatrix stEx1 = buildDistanceMatrix (zones stEx)
   \<and> distanceMatrix stEx2 = buildDistanceMatrix (zones stEx1)
   \<and> calculateRouteDistance (distanceMatrix stEx1) [0, 2] = 0
   \<and> calculateRouteDistance (distanceMatrix stEx2) [0, 2] = 2 * far
   \<and> batteryCapacity (drones stEx1 ! 0) = 100 \<and> 100 < 2 * far"
proof -
  have "map route (drones stEx1) = [[0, 2], [0, 1]]" "map route (drones stEx2) = [[0, 1], [0, 2]]"
    "zones stEx2 = zones stEx1" "batteryCapacity (drones stEx1 ! 0) = 100"
    by (simp_all add: stEx1_def stEx2_def dronesEx1_def dronesEx2_def droneA_def droneB_def
        Drone_def)
  moreover have "distanceMatrix stEx1 = buildDistanceMatrix (zones stEx)"
    "distanceMatrix stEx2 = buildDistanceMatrix (zones stEx1)"
    using dmEx_built dmEx'_built by (simp_all add: stEx1_def stEx2_def stEx_eq)
  moreover have "calculateRouteDistance (distanceMatrix stEx1) [0, 2] = 0"
    "calculateRouteDistance (distanceMatrix stEx2) [0, 2] = 2 * far"
    by (simp_all add: stEx1_def stEx2_def dmEx_def dmEx'_def calculateRouteDistance_def)
  moreover have "100 < 2 * far"
    using far_bounds by simp
  ultimately show ?thesis
    using optimize_stEx optimize_stEx1 by simp
qed

text \<open>
  Claim C2 fails on \<open>stEx\<close>, a fleet of two drones from the constructor and two requests, on
  the first call. \<^verbatim>\<open>optimize\<close> builds the matrix from the requests in the order of
  insertion and then sorts the requests, so the route positions, which count in the sorted
  list, are looked up in a matrix of another order. The drone of battery capacity 100 is
  given the route 0-2; position 2 of the request list that the call leaves is the request at
  longitude 180, at the distance \<open>far\<close> from the base, so the way from the base to the stop
  and back is \<open>2 * far\<close>, more than 40000, in the matrix of the request list as well as by
  the coordinates. The call itself stores 0 as the length of that route.
\<close>

theorem optimize_route_out_of_range:
  "optimize stEx = Inr (stEx1, getResults zsEx2 dronesEx1)
   \<and> map route (drones stEx) = [[], []]
   \<and> route (drones stEx1 ! 0) = [0, 2]
   \<and> batteryCapacity (drones stEx1 ! 0) = 100
   \<and> calculateDistance (lat (zones stEx1 ! 0)) (lng (zones stEx1 ! 0))
        (lat (zones stEx1 ! 2)) (lng (zones stEx1 ! 2)) = far
   \<and> calculateDistance (lat (zones stEx1 ! 2)) (lng (zones stEx1 ! 2))
        (lat (zones stEx1 ! 0)) (lng (zones stEx1 ! 0)) = far
   \<and> calculateRouteDistance (buildDistanceMatrix (zones stEx1)) (route (drones stEx1 ! 0))
        = 2 * far
   \<and> 100 < 2 * far
   \<and> totalDistance (drones stEx1 ! 0) = 0"
proof -
  have a: "optimize stEx = Inr (stEx1, getResults zsEx2 dronesEx1)"
    by (rule optimize_stEx)
  have b: "map route (drones stEx) = [[], []]"
    by (simp add: stEx_eq Drone_def)
  have c: "route (drones stEx1 ! 0) = [0, 2]"
    and d: "batteryCapacity (drones stEx1 ! 0) = 100"
    and i: "totalDistance (drones stEx1 ! 0) = 0"
    by (simp_all add: stEx1_def dronesEx1_def Drone_def)
  have e: "calculateDistance (lat (zones stEx1 ! 0)) (lng (zones stEx1 ! 0))
        (lat (zones stEx1 ! 2)) (lng (zones stEx1 ! 2)) = far"
    and f: "calculateDistance (lat (zones stEx1 ! 2)) (lng (zones stEx1 ! 2))
        (lat (zones stEx1 ! 0)) (lng (zones stEx1 ! 0)) = far"
    using calculateDistance_half calculateDistance_sym
    by (simp_all add: stEx1_def zsEx2_def zBase_def zFar_def)
  have "buildDistanceMatrix (zones stEx1) = dmEx'"
    using dmEx'_built by (simp add: stEx1_def)
  then have g: "calculateRouteDistance (buildDistanceMatrix (zones stEx1))
      (route (drones stEx1 ! 0)) = 2 * far"
    by (simp add: c dmEx'_def calculateRouteDistance_def)
  have h: "100 < 2 * far"
    using far_bounds by simp
  show ?thesis
    by (intro conjI; fact)
qed

text \<open>A route of four stops that one reversal shortens.\<close>

lemma dm4_built: "buildDistanceMatrix zs4 = dm4"
  by (simp add: dm4_def zs4_def Zone_def buildDistanceMatrix_def Let_def upt_conv_Cons
      calculateDistance_half calculateDistance_same)

lemma rev4: "reverseSegment [0, Suc 0, 2, 3] (Suc 0) (Suc (Suc 0)) = [0, 2, Suc 0, 3]"
  by (simp add: reverseSegment.simps)

lemma crd4: "calculateRouteDistance dm4 [0, Suc 0, 2, 3] = 4 * far"
  "calculateRouteDistance dm4 [0, 2, Suc 0, 3] = 2 * far"
  by (simp_all add: calculateRouteDistance_def dm4_def upt_conv_Cons)

lemma step4a:
  "twoOptStep dm4 100000 (Suc 0) (Suc (Suc 0)) ([0, Suc 0, 2, 3], False) = ([0, 2, Suc 0, 3], True)"
proof -
  have "dm4 ! 0 ! 2 + dm4 ! 1 ! 3 < dm4 ! 0 ! 1 + dm4 ! 2 ! 3"
    using far_bounds by (simp add: dm4_def)
  moreover have "2 * far \<le> 100000"
    using far_bounds by simp
  ultimately show ?thesis
    by (simp add: twoOptStep_def Let_def rev4 crd4)
qed

lemma step4b:
  "twoOptStep dm4 100000 (Suc 0) (Suc (Suc 0)) ([0, 2, Suc 0, 3], False) = ([0, 2, Suc 0, 3], False)"
proof -
  have "\<not> dm4 ! 0 ! 1 + dm4 ! 2 ! 3 < dm4 ! 0 ! 2 + dm4 ! 1 ! 3"
    using far_bounds by (simp add: dm4_def)
  then show ?thesis
    by (simp add: twoOptStep_def Let_def)
qed

lemma outer4a: "twoOptOuter dm4 100000 (Suc 0) ([0, Suc 0, 2, 3], False) = ([0, 2, Suc 0, 3], True)"
  by (simp add: twoOptOuter.simps twoOptInner.simps step4a)

lemma outer4b: "twoOptOuter dm4 100000 (Suc 0) ([0, 2, Suc 0, 3], False) = ([0, 2, Suc 0, 3], False)"
  by (simp add: twoOptOuter.simps twoOptInner.simps step4b)

lemma two4: "twoOptOptimize dm4 [0, Suc 0, 2, 3] 100000 = [0, 2, Suc 0, 3]"
  by (simp add: twoOptOptimize_def twoOptWhile.simps maxIterations_def outer4a outer4b)

lemma twoOptOptimize_improves_exact_witness:
  "length zs4 = 4
   \<and> twoOptOptimize (buildDistanceMatrix zs4) [0, 1, 2, 3] 100000 = [0, 2, 1, 3]
   \<and> calculateRouteDistance (buildDistanceMatrix zs4) [0, 1, 2, 3] = 4 * far
   \<and> calculateRouteDistance (buildDistanceMatrix zs4) [0, 2, 1, 3] = 2 * far
   \<and> calculateRouteDistance (buildDistanceMatrix zs4)
        (twoOptOptimize (buildDistanceMatrix zs4) [0, 1, 2, 3] 100000)
      \<le> calculateRouteDistance (buildDistanceMatrix zs4) [0, 1, 2, 3]
   \<and> mset (twoOptOptimize (buildDistanceMatrix zs4) [0, 1, 2, 3] 100000) = mset [0, 1, 2, 3]"
proof -
  have l: "length zs4 = 4" by (simp add: zs4_def)
  then have h: "\<forall>k \<in> set [0, 1, 2, 3::nat]. k < length zs4" by simp
  from twoOptOptimize_improves_exact [OF h, of 100000] l
  show ?thesis by (simp add: dm4_built two4 crd4)
qed

section \<open>A skipped drone keeps the route of an earlier call\<close>

text \<open>
  The loop over the fleet assigns \<^verbatim>\<open>drone.route\<close> only after the test for available zones:
  a drone for which no zone is available is passed over by \<^verbatim>\<open>continue\<close> and leaves the
  call with the route, the distance and the delivered load it entered with. The positions of
  that route are then read in the request list of the present call. The two calls below show
  what follows; between them the base is moved and a request is added, so that all requests
  of the second call are at one place, their matrix is zero in every order, and the order in
  which the matrix is built plays no part.
\<close>

lemma stR0_eq:
  "stR0 = \<lparr>zones = [zBase, zA], drones = [Drone 1 100 100, Drone 2 60000 10],
           distanceMatrix = [], baseLocation = Some (0, 0)\<rparr>"
  by (simp add: stR0_def addDrone_def addZone_def setBase_def newOptimizer_def Zone_def
      zBase_def zA_def)

lemma dmR0: "buildDistanceMatrix [zBase, zA] = [[0, far], [far, 0]]"
  by (simp add: buildDistanceMatrix_def Let_def upt_conv_Cons zBase_def zA_def
      calculateDistance_half)

lemma findR1: "findNearest [[0, far], [far, 0]] [zBase\<lparr>served := True\<rparr>, zA] [Suc 0]
    (Drone 1 100 100) [0] [0] 0 0 = None"
  using far_bounds
  by (simp add: findNearest_def scanZone_def Let_def Drone_def currentLoad_def zBase_def zA_def
      js_div_def)

lemma assignR1:
  "assignDrone [[0, far], [far, 0]] (Drone 1 100 100) [zBase\<lparr>served := True\<rparr>, zA] [True, False]
     = (droneC, [zBase\<lparr>served := True\<rparr>, zA], [True, False])"
proof -
  have av: "availableZonesFor [zBase\<lparr>served := True\<rparr>, zA] [True, False] (Drone 1 100 100) = [Suc 0]"
    by (simp add: availableZonesFor_def upt_conv_Cons Drone_def zBase_def zA_def)
  have nn: "nearestNeighborTSP [[0, far], [far, 0]] [zBase\<lparr>served := True\<rparr>, zA] [Suc 0]
      (Drone 1 100 100) = [0]"
    using nnLoop_stop [OF findR1] by (simp add: nearestNeighborTSP_def)
  have o: "(if length [0::nat] > 1
            then twoOptOptimize [[0, far], [far, 0]] [0] (batteryCapacity (Drone 1 100 100))
            else [0]) = [0]"
    by simp
  have m: "markAssigned [0] ([zBase\<lparr>served := True\<rparr>, zA], [True, False], 0)
      = ([zBase\<lparr>served := True\<rparr>, zA], [True, False], 0)"
    by simp
  have c: "calculateRouteDistance [[0, far], [far, 0]] [0] = 0"
    by (simp add: calculateRouteDistance_def)
  show ?thesis
    using assignDrone_eq [OF av _ nn o m] c by (simp add: droneC_def)
qed

lemma findR2: "findNearest [[0, far], [far, 0]] [zBase\<lparr>served := True\<rparr>, zA] [Suc 0]
    (Drone 2 60000 10) [0] [0] 0 0 = Some 1"
  using far_bounds
  by (simp add: findNearest_def scanZone_def Let_def Drone_def currentLoad_def zBase_def zA_def
      js_div_def)

lemma findR3: "findNearest [[0, far], [far, 0]] [zBase\<lparr>served := True\<rparr>, zA] [Suc 0]
    (Drone 2 60000 10) [0, 1] [0, 1] 1 far = None"
  by (simp add: findNearest_def scanZone_def)

lemma assignR2:
  "assignDrone [[0, far], [far, 0]] (Drone 2 60000 10) [zBase\<lparr>served := True\<rparr>, zA] [True, False]
     = (droneD, [zBase\<lparr>served := True\<rparr>, zA\<lparr>served := True\<rparr>], [True, True])"
proof -
  have av: "availableZonesFor [zBase\<lparr>served := True\<rparr>, zA] [True, False] (Drone 2 60000 10) = [Suc 0]"
    by (simp add: availableZonesFor_def upt_conv_Cons Drone_def zBase_def zA_def)
  have "[[0, far], [far, 0]] ! 0 ! 1 = far" by simp
  then have nn: "nearestNeighborTSP [[0, far], [far, 0]] [zBase\<lparr>served := True\<rparr>, zA] [Suc 0]
      (Drone 2 60000 10) = [0, 1]"
    using nnLoop_go [OF findR2] nnLoop_stop [OF findR3] by (simp add: nearestNeighborTSP_def)
  have o: "(if length [0, 1::nat] > 1
            then twoOptOptimize [[0, far], [far, 0]] [0, 1] (batteryCapacity (Drone 2 60000 10))
            else [0, 1]) = [0, 1]"
    by (simp add: twoOptOptimize_def)
  have m: "markAssigned [0, 1] ([zBase\<lparr>served := True\<rparr>, zA], [True, False], 0)
      = ([zBase\<lparr>served := True\<rparr>, zA\<lparr>served := True\<rparr>], [True, True], 5)"
    by (simp add: zA_def)
  have c: "calculateRouteDistance [[0, far], [far, 0]] [0, 1] = 2 * far"
    by (simp add: calculateRouteDistance_def)
  show ?thesis
    using assignDrone_eq [OF av _ nn o m] c by (simp add: droneD_def)
qed

lemma optimize_stR0: "optimize stR0 = Inr (stR1, getResults (zones stR1) (drones stR1))"
proof -
  have z: "zones stR0 = zBase # [zA]"
    and d: "drones stR0 = [Drone 1 100 100, Drone 2 60000 10]"
    by (simp_all add: stR0_eq)
  have b: "buildDistanceMatrix (zBase # [zA]) = [[0, far], [far, 0]]"
    using dmR0 by simp
  have zs: "zBase\<lparr>served := True\<rparr> # map (\<lambda>z. z\<lparr>served := False\<rparr>) (sortZones [zA])
      = [zBase\<lparr>served := True\<rparr>, zA]"
    by (simp add: sortZones_def zA_def)
  have za: "True # replicate (length [zA]) False = [True, False]"
    by simp
  have ar: "assignRoutes [[0, far], [far, 0]] [Drone 1 100 100, Drone 2 60000 10]
      [zBase\<lparr>served := True\<rparr>, zA] [True, False]
      = ([droneC, droneD], [zBase\<lparr>served := True\<rparr>, zA\<lparr>served := True\<rparr>], [True, True])"
    by (simp add: assignR1 assignR2)
  have "assignRoutes (buildDistanceMatrix (zones stR0)) (drones stR0)
           (zBase\<lparr>served := True\<rparr> # map (\<lambda>z. z\<lparr>served := False\<rparr>) (sortZones [zA]))
           (True # replicate (length [zA]) False)
         = ([droneC, droneD], [zBase\<lparr>served := True\<rparr>, zA\<lparr>served := True\<rparr>], [True, True])"
    unfolding z d b zs za by (rule ar)
  from optimize_eq [OF z this]
  have "optimize stR0 =
      Inr (stR0\<lparr>zones := [zBase\<lparr>served := True\<rparr>, zA\<lparr>served := True\<rparr>],
                 drones := [droneC, droneD], distanceMatrix := [[0, far], [far, 0]]\<rparr>,
           getResults [zBase\<lparr>served := True\<rparr>, zA\<lparr>served := True\<rparr>] [droneC, droneD])"
    unfolding z b .
  then show ?thesis
    by (simp add: stR1_def stR0_eq)
qed


lemma stR2_eq:
  "stR2 = \<lparr>zones = [zBase', zA\<lparr>served := True\<rparr>, zB], drones = [droneC, droneD],
           distanceMatrix = [[0, far], [far, 0]], baseLocation = Some (0, 180)\<rparr>"
  by (simp add: stR2_def stR1_def addZone_def setBase_def Zone_def zBase_def zBase'_def zA_def
      zB_def)

lemma dmR2: "buildDistanceMatrix [zBase', zA\<lparr>served := True\<rparr>, zB] = [[0, 0, 0], [0, 0, 0], [0, 0, 0]]"
  by (simp add: buildDistanceMatrix_def Let_def upt_conv_Cons zBase'_def zA_def zB_def
      calculateDistance_same)

lemma sortR2: "map (\<lambda>z. z\<lparr>served := False\<rparr>) (sortZones [zA\<lparr>served := True\<rparr>, zB]) = [zB, zA]"
  by (simp add: sortZones_def compareZones_def zA_def zB_def)

lemma findR4: "findNearest [[0, 0, 0], [0, 0, 0], [0, 0, 0]] [zBase'\<lparr>served := True\<rparr>, zB, zA]
    [Suc 0, 2] droneC [0] [0] 0 0 = Some 1"
  by (simp add: findNearest_def scanZone_def Let_def droneC_def Drone_def currentLoad_def
      zBase'_def zA_def zB_def js_div_def)

lemma findR5: "findNearest [[0, 0, 0], [0, 0, 0], [0, 0, 0]] [zBase'\<lparr>served := True\<rparr>, zB, zA]
    [Suc 0, 2] droneC [0, 1] [0, 1] 1 0 = Some 2"
  by (simp add: findNearest_def scanZone_def Let_def droneC_def Drone_def currentLoad_def
      zBase'_def zA_def zB_def js_div_def)

lemma findR6: "findNearest [[0, 0, 0], [0, 0, 0], [0, 0, 0]] [zBase'\<lparr>served := True\<rparr>, zB, zA]
    [Suc 0, 2] droneC [0, 1, 2] [0, 1, 2] 2 0 = None"
  by (simp add: findNearest_def scanZone_def)

lemma assignR3:
  "assignDrone [[0, 0, 0], [0, 0, 0], [0, 0, 0]] droneC [zBase'\<lparr>served := True\<rparr>, zB, zA]
     [True, False, False]
     = (droneC\<lparr>route := [0, 1, 2], totalDistance := 0, totalDelivered := 55\<rparr>, zsR3,
        [True, True, True])"
proof -
  have av: "availableZonesFor [zBase'\<lparr>served := True\<rparr>, zB, zA] [True, False, False] droneC
      = [Suc 0, 2]"
    by (simp add: availableZonesFor_def upt_conv_Cons droneC_def Drone_def zBase'_def zA_def
        zB_def)
  have "[[0, 0, 0], [0, 0, 0], [0, 0, 0::real]] ! 0 ! 1 = 0"
    and "[[0, 0, 0], [0, 0, 0], [0, 0, 0::real]] ! 1 ! 2 = 0"
    by simp_all
  then have nn: "nearestNeighborTSP [[0, 0, 0], [0, 0, 0], [0, 0, 0]]
      [zBase'\<lparr>served := True\<rparr>, zB, zA] [Suc 0, 2] droneC = [0, 1, 2]"
    using nnLoop_go [OF findR4] nnLoop_go [OF findR5] nnLoop_stop [OF findR6]
    by (simp add: nearestNeighborTSP_def)
  have o: "(if length [0, 1, 2::nat] > 1
            then twoOptOptimize [[0, 0, 0], [0, 0, 0], [0, 0, 0]] [0, 1, 2] (batteryCapacity droneC)
            else [0, 1, 2]) = [0, 1, 2]"
    by (simp add: twoOptOptimize_def)
  have m: "markAssigned [0, 1, 2] ([zBase'\<lparr>served := True\<rparr>, zB, zA], [True, False, False], 0)
      = (zsR3, [True, True, True], 55)"
    by (simp add: zsR3_def zA_def zB_def)
  have c: "calculateRouteDistance [[0, 0, 0], [0, 0, 0], [0, 0, 0]] [0, 1, 2] = 0"
    by (simp add: calculateRouteDistance_def)
  show ?thesis
    using assignDrone_eq [OF av _ nn o m] c by simp
qed

lemma assignR4:
  "assignDrone [[0, 0, 0], [0, 0, 0], [0, 0, 0]] droneD zsR3 [True, True, True]
     = (droneD, zsR3, [True, True, True])"
proof -
  have "availableZonesFor zsR3 [True, True, True] droneD = []"
    by (simp add: availableZonesFor_def upt_conv_Cons zsR3_def)
  then show ?thesis
    by (simp add: assignDrone_def)
qed

lemma optimize_stR2: "optimize stR2 = Inr (stR3, getResults (zones stR3) (drones stR3))"
proof -
  have z: "zones stR2 = zBase' # [zA\<lparr>served := True\<rparr>, zB]"
    and d: "drones stR2 = [droneC, droneD]"
    by (simp_all add: stR2_eq)
  have b: "buildDistanceMatrix (zBase' # [zA\<lparr>served := True\<rparr>, zB])
      = [[0, 0, 0], [0, 0, 0], [0, 0, 0]]"
    using dmR2 by simp
  have zs: "zBase'\<lparr>served := True\<rparr> # map (\<lambda>z. z\<lparr>served := False\<rparr>)
        (sortZones [zA\<lparr>served := True\<rparr>, zB])
      = [zBase'\<lparr>served := True\<rparr>, zB, zA]"
    using sortR2 by simp
  have za: "True # replicate (length [zA\<lparr>served := True\<rparr>, zB]) False = [True, False, False]"
    by (simp add: numeral_2_eq_2)
  have ar: "assignRoutes [[0, 0, 0], [0, 0, 0], [0, 0, 0]] [droneC, droneD]
      [zBase'\<lparr>served := True\<rparr>, zB, zA] [True, False, False]
      = ([droneC\<lparr>route := [0, 1, 2], totalDistance := 0, totalDelivered := 55\<rparr>, droneD], zsR3,
         [True, True, True])"
    by (simp add: assignR3 assignR4)
  have "assignRoutes (buildDistanceMatrix (zones stR2)) (drones stR2)
           (zBase'\<lparr>served := True\<rparr> # map (\<lambda>z. z\<lparr>served := False\<rparr>)
              (sortZones [zA\<lparr>served := True\<rparr>, zB]))
           (True # replicate (length [zA\<lparr>served := True\<rparr>, zB]) False)
         = ([droneC\<lparr>route := [0, 1, 2], totalDistance := 0, totalDelivered := 55\<rparr>, droneD], zsR3,
            [True, True, True])"
    unfolding z d b zs za by (rule ar)
  from optimize_eq [OF z this]
  have "optimize stR2 =
      Inr (stR2\<lparr>zones := zsR3,
                 drones := [droneC\<lparr>route := [0, 1, 2], totalDistance := 0, totalDelivered := 55\<rparr>,
                            droneD],
                 distanceMatrix := [[0, 0, 0], [0, 0, 0], [0, 0, 0]]\<rparr>,
           getResults zsR3
             [droneC\<lparr>route := [0, 1, 2], totalDistance := 0, totalDelivered := 55\<rparr>, droneD])"
    unfolding z b .
  then show ?thesis
    by (simp add: stR3_def stR2_eq)
qed

text \<open>
  Claim C1 fails on the second of the two calls. In the first call the drone of payload
  capacity 10 serves the request of demand 5 and gets the route 0-1. In the second call the
  other drone, of payload capacity 100, takes both requests, so none is available to the
  drone of payload capacity 10: it is skipped and keeps the route 0-1. Position 1 of the
  request list is now the request of demand 50, which sorts before the one of demand 5, so
  after the second call, which returns, the demands on that route add up to 50, more than the
  payload capacity 10 of its drone, and the results of the call report that route and a load
  of 5 for it.
\<close>

theorem optimize_stale_route_overloaded:
  "optimize stR0 = Inr (stR1, getResults (zones stR1) (drones stR1))
   \<and> optimize (addZone (Zone 0 1 50 0 180) (setBase 0 180 stR1))
       = Inr (stR3, getResults (zones stR3) (drones stR3))
   \<and> route (drones stR3 ! 1) = [0, 1]
   \<and> currentLoad (zones stR3) (route (drones stR3 ! 1)) = 50
   \<and> payloadCapacity (drones stR3 ! 1) = 10
   \<and> map (\<lambda>r. map (map_option zid) (r_route r)) (res_drones (getResults (zones stR3) (drones stR3)))
       = [[Some 0, Some 2, Some 1], [Some 0, Some 2]]
   \<and> map r_totalDelivered (res_drones (getResults (zones stR3) (drones stR3))) = [55, 5]"
proof -
  have a: "optimize stR0 = Inr (stR1, getResults (zones stR1) (drones stR1))"
    by (rule optimize_stR0)
  have b: "optimize (addZone (Zone 0 1 50 0 180) (setBase 0 180 stR1))
       = Inr (stR3, getResults (zones stR3) (drones stR3))"
    using optimize_stR2 by (simp only: stR2_def)
  have c: "route (drones stR3 ! 1) = [0, 1]"
    by (simp add: stR3_def droneD_def)
  have d: "currentLoad (zones stR3) (route (drones stR3 ! 1)) = 50"
    by (simp add: stR3_def droneD_def zsR3_def currentLoad_def zB_def zBase'_def)
  have e: "payloadCapacity (drones stR3 ! 1) = 10"
    by (simp add: stR3_def droneD_def Drone_def)
  have f: "map (\<lambda>r. map (map_option zid) (r_route r)) (res_drones (getResults (zones stR3) (drones stR3)))
       = [[Some 0, Some 2, Some 1], [Some 0, Some 2]]"
    by (simp add: getResults_def Let_def stR3_def droneD_def droneC_def zsR3_def zB_def zA_def
        zBase'_def Drone_def)
  have g: "map r_totalDelivered (res_drones (getResults (zones stR3) (drones stR3))) = [55, 5]"
    by (simp add: getResults_def Let_def stR3_def droneD_def droneC_def zsR3_def Drone_def)
  show ?thesis
    by (intro conjI; fact)
qed

text \<open>
  Claim C3 fails on the same call, for the same reason. After the second call the route of
  the first drone is 0-1-2 and the route of the second drone, which was skipped, is still
  0-1: position 1, the request of id 2, is in both routes, although the first drone's route
  had marked it as served before the second drone's turn. The results of the call name the
  request of id 2 in both routes, while two requests are counted as served.
\<close>

theorem optimize_stale_route_shared:
  "optimize stR0 = Inr (stR1, getResults (zones stR1) (drones stR1))
   \<and> optimize (addZone (Zone 0 1 50 0 180) (setBase 0 180 stR1))
       = Inr (stR3, getResults (zones stR3) (drones stR3))
   \<and> map route (drones stR3) = [[0, 1, 2], [0, 1]]
   \<and> zid (zones stR3 ! 1) = 2
   \<and> map (\<lambda>r. map (map_option zid) (r_route r)) (res_drones (getResults (zones stR3) (drones stR3)))
       = [[Some 0, Some 2, Some 1], [Some 0, Some 2]]
   \<and> zonesServed (res_summary (getResults (zones stR3) (drones stR3))) = 2"
proof -
  have a: "optimize stR0 = Inr (stR1, getResults (zones stR1) (drones stR1))"
    by (rule optimize_stR0)
  have b: "optimize (addZone (Zone 0 1 50 0 180) (setBase 0 180 stR1))
       = Inr (stR3, getResults (zones stR3) (drones stR3))"
    using optimize_stR2 by (simp only: stR2_def)
  have c: "map route (drones stR3) = [[0, 1, 2], [0, 1]]"
    by (simp add: stR3_def droneD_def)
  have d: "zid (zones stR3 ! 1) = 2"
    by (simp add: stR3_def zsR3_def zB_def)
  have e: "map (\<lambda>r. map (map_option zid) (r_route r))
      (res_drones (getResults (zones stR3) (drones stR3)))
       = [[Some 0, Some 2, Some 1], [Some 0, Some 2]]"
    by (simp add: getResults_def Let_def stR3_def droneD_def droneC_def zsR3_def zB_def zA_def
        zBase'_def Drone_def)
  have f: "zonesServed (res_summary (getResults (zones stR3) (drones stR3))) = 2"
    by (simp add: getResults_def Let_def stR3_def zsR3_def zB_def zA_def zBase'_def)
  show ?thesis
    by (intro conjI; fact)
qed

section \<open>Calls without requests or without a fleet\<close>

lemma assignRoutes_base_only:
  "assignRoutes dm ds [b] [True] = (ds, [b], [True])"
proof (induction ds)
  case Nil
  then show ?case by simp
next
  case (Cons d ds)
  have "assignDrone dm d [b] [True] = (d, [b], [True])"
    by (simp add: assignDrone_def availableZonesFor_def)
  then show ?case using Cons by simp
qed

text \<open>
  Claim C4, as amended. \<^verbatim>\<open>optimize\<close> has no check of its own for missing requests. On a
  request list that holds only the base it returns normally: the base is marked served, no
  drone is touched, and the summary reports 0 served of 0 requests. On an empty request list
  it fails with a \<^verbatim>\<open>TypeError\<close>.
\<close>

theorem optimize_without_requests:
  "(zones st = [] \<longrightarrow> optimize st = Inl TypeError)
   \<and> (zones st = [b] \<and> zid b = 0 \<longrightarrow>
        (\<exists>res. optimize st =
               Inr (st\<lparr>zones := [b\<lparr>served := True\<rparr>], distanceMatrix := [[0]]\<rparr>, res)
             \<and> zonesServed (res_summary res) = 0 \<and> totalZones (res_summary res) = 0
             \<and> map routeIndices (res_drones res) = map route (drones st)))"
proof (intro conjI impI)
  assume "zones st = []"
  then show "optimize st = Inl TypeError"
    by (simp add: optimize_def sortZonesByPriority_def)
next
  assume a: "zones st = [b] \<and> zid b = 0"
  then have z: "zones st = b # []" by simp
  have m: "buildDistanceMatrix (zones st) = [[0]]"
    by (simp add: z buildDistanceMatrix_def)
  have "assignRoutes (buildDistanceMatrix (zones st)) (drones st)
           (b\<lparr>served := True\<rparr> # map (\<lambda>z. z\<lparr>served := False\<rparr>) (sortZones []))
           (True # replicate (length ([]::zone list)) False)
         = (drones st, [b\<lparr>served := True\<rparr>], [True])"
    by (simp add: sortZones_def assignRoutes_base_only)
  from optimize_eq [OF z this]
  have "optimize st =
      Inr (st\<lparr>zones := [b\<lparr>served := True\<rparr>], distanceMatrix := [[0]]\<rparr>,
           getResults [b\<lparr>served := True\<rparr>] (drones st))"
    by (simp add: m)
  moreover have "zonesServed (res_summary (getResults [b\<lparr>served := True\<rparr>] (drones st))) = 0"
    "totalZones (res_summary (getResults [b\<lparr>served := True\<rparr>] (drones st))) = 0"
    "map routeIndices (res_drones (getResults [b\<lparr>served := True\<rparr>] (drones st)))
       = map route (drones st)"
    using a by (simp_all add: getResults_def)
  ultimately show "\<exists>res. optimize st =
               Inr (st\<lparr>zones := [b\<lparr>served := True\<rparr>], distanceMatrix := [[0]]\<rparr>, res)
             \<and> zonesServed (res_summary res) = 0 \<and> totalZones (res_summary res) = 0
             \<and> map routeIndices (res_drones res) = map route (drones st)"
    by blast
qed

text \<open>
  Against claim C4 as stated: with the base and one drone and no request, the call returns a
  result, with an empty route for the drone and 0 of 0 requests served.
\<close>

theorem optimize_base_only_returns:
  "optimize stBaseOnly =
     Inr (stBaseOnly\<lparr>zones := [zBase\<lparr>served := True\<rparr>], distanceMatrix := [[0]]\<rparr>,
          getResults [zBase\<lparr>served := True\<rparr>] [Drone 1 100 50])
   \<and> zonesServed (res_summary (getResults [zBase\<lparr>served := True\<rparr>] [Drone 1 100 50])) = 0
   \<and> totalZones (res_summary (getResults [zBase\<lparr>served := True\<rparr>] [Drone 1 100 50])) = 0
   \<and> map routeIndices (res_drones (getResults [zBase\<lparr>served := True\<rparr>] [Drone 1 100 50])) = [[]]"
proof -
  have z: "zones stBaseOnly = zBase # []" and d: "drones stBaseOnly = [Drone 1 100 50]"
    by (simp_all add: stBaseOnly_def addDrone_def setBase_def newOptimizer_def zBase_def)
  have m: "buildDistanceMatrix (zones stBaseOnly) = [[0]]"
    by (simp add: z buildDistanceMatrix_def)
  have "assignRoutes (buildDistanceMatrix (zones stBaseOnly)) (drones stBaseOnly)
           (zBase\<lparr>served := True\<rparr> # map (\<lambda>z. z\<lparr>served := False\<rparr>) (sortZones []))
           (True # replicate (length ([]::zone list)) False)
         = ([Drone 1 100 50], [zBase\<lparr>served := True\<rparr>], [True])"
    by (simp add: sortZones_def assignRoutes_base_only d)
  from optimize_eq [OF z this]
  have "optimize stBaseOnly =
      Inr (stBaseOnly\<lparr>zones := [zBase\<lparr>served := True\<rparr>], drones := [Drone 1 100 50],
                        distanceMatrix := [[0]]\<rparr>,
           getResults [zBase\<lparr>served := True\<rparr>] [Drone 1 100 50])"
    unfolding m .
  then show ?thesis
    by (simp add: getResults_def zBase_def Drone_def stBaseOnly_def addDrone_def setBase_def
        newOptimizer_def)
qed

theorem optimize_without_requests_witness:
  "zones newOptimizer = [] \<and> optimize newOptimizer = Inl TypeError
   \<and> zones stBaseOnly = [zBase] \<and> zid zBase = 0
   \<and> (\<exists>res. optimize stBaseOnly =
               Inr (stBaseOnly\<lparr>zones := [zBase\<lparr>served := True\<rparr>], distanceMatrix := [[0]]\<rparr>, res)
             \<and> zonesServed (res_summary res) = 0 \<and> totalZones (res_summary res) = 0
             \<and> map routeIndices (res_drones res) = map route (drones stBaseOnly))"
proof -
  have 1: "zones newOptimizer = []" by (simp add: newOptimizer_def)
  have 2: "zones stBaseOnly = [zBase] \<and> zid zBase = 0"
    by (simp add: stBaseOnly_def addDrone_def setBase_def newOptimizer_def zBase_def)
  from optimize_without_requests [of newOptimizer zBase] optimize_without_requests [of stBaseOnly zBase]
  show ?thesis using 1 2 by blast
qed

text \<open>
  Claim C6. With an empty fleet and one request the call returns and leaves the request
  unserved, but the average battery usage it reports is \<^verbatim>\<open>0 / 0\<close>, that is
  \<^verbatim>\<open>NaN\<close>, not 0.
\<close>

theorem optimize_empty_fleet_average_NaN:
  "optimize stNoFleet =
     Inr (stNoFleet\<lparr>zones := [zBase\<lparr>served := True\<rparr>, zNear\<lparr>zid := 1\<rparr>],
                     distanceMatrix := [[0, 0], [0, 0]]\<rparr>,
          getResults [zBase\<lparr>served := True\<rparr>, zNear\<lparr>zid := 1\<rparr>] [])
   \<and> served (zNear\<lparr>zid := 1\<rparr>) = False
   \<and> zonesServed (res_summary (getResults [zBase\<lparr>served := True\<rparr>, zNear\<lparr>zid := 1\<rparr>] [])) = 0
   \<and> totalZones (res_summary (getResults [zBase\<lparr>served := True\<rparr>, zNear\<lparr>zid := 1\<rparr>] [])) = 1
   \<and> avgBatteryUsage (res_summary (getResults [zBase\<lparr>served := True\<rparr>, zNear\<lparr>zid := 1\<rparr>] [])) = NaN
   \<and> avgBatteryUsage (res_summary (getResults [zBase\<lparr>served := True\<rparr>, zNear\<lparr>zid := 1\<rparr>] []))
       \<noteq> Fin 0"
proof -
  have z: "zones stNoFleet = zBase # [zNear\<lparr>zid := 1\<rparr>]" and d: "drones stNoFleet = []"
    by (simp_all add: stNoFleet_def addZone_def setBase_def newOptimizer_def zBase_def zNear_def
        Zone_def)
  have m: "buildDistanceMatrix (zones stNoFleet) = [[0, 0], [0, 0]]"
    by (simp add: z buildDistanceMatrix_def Let_def upt_conv_Cons zBase_def zNear_def
        calculateDistance_same)
  have "assignRoutes (buildDistanceMatrix (zones stNoFleet)) (drones stNoFleet)
           (zBase\<lparr>served := True\<rparr> # map (\<lambda>z. z\<lparr>served := False\<rparr>) (sortZones [zNear\<lparr>zid := 1\<rparr>]))
           (True # replicate (length [zNear\<lparr>zid := 1\<rparr>]) False)
         = ([], [zBase\<lparr>served := True\<rparr>, zNear\<lparr>zid := 1\<rparr>], [True, False])"
    by (simp add: d sortZones_def zNear_def)
  from optimize_eq [OF z this]
  have "optimize stNoFleet =
      Inr (stNoFleet\<lparr>zones := [zBase\<lparr>served := True\<rparr>, zNear\<lparr>zid := 1\<rparr>], drones := [],
                       distanceMatrix := [[0, 0], [0, 0]]\<rparr>,
           getResults [zBase\<lparr>served := True\<rparr>, zNear\<lparr>zid := 1\<rparr>] [])"
    unfolding m .
  then show ?thesis
    by (simp add: getResults_def zBase_def zNear_def js_div_def stNoFleet_def addZone_def
        setBase_def newOptimizer_def Zone_def)
qed

section \<open>Further properties\<close>

text \<open>
  \<^verbatim>\<open>optimize\<close> returns a result exactly when the request list is not empty; all its loops
  are bounded, so there is no input on which it runs forever.
\<close>

theorem optimize_returns_iff:
  "(\<exists>st' res. optimize st = Inr (st', res)) = (zones st \<noteq> [])"
proof (cases "zones st")
  case Nil
  then show ?thesis
    by (simp add: optimize_def sortZonesByPriority_def)
next
  case (Cons b others)
  obtain ds' zs' za' where
    "assignRoutes (buildDistanceMatrix (zones st)) (drones st)
           (b\<lparr>served := True\<rparr> # map (\<lambda>z. z\<lparr>served := False\<rparr>) (sortZones others))
           (True # replicate (length others) False) = (ds', zs', za')"
    by (metis prod_cases3)
  from optimize_eq [OF Cons this] Cons
  show ?thesis by simp
qed

lemma compareZones_total: "compareZones a b \<le> 0 \<or> compareZones b a \<le> 0"
  unfolding compareZones_def by (cases "priority a = priority b") auto

lemma compareZones_trans:
  assumes "compareZones a b \<le> 0" "compareZones b c \<le> 0"
  shows "compareZones a c \<le> 0"
proof -
  have ab: "priority a < priority b \<or> (priority a = priority b \<and> demand b \<le> demand a)"
    using assms(1) unfolding compareZones_def by (cases "priority a = priority b") auto
  have bc: "priority b < priority c \<or> (priority b = priority c \<and> demand c \<le> demand b)"
    using assms(2) unfolding compareZones_def by (cases "priority b = priority c") auto
  from ab bc have "priority a < priority c \<or> (priority a = priority c \<and> demand c \<le> demand a)"
    by linarith
  then show ?thesis
    unfolding compareZones_def by (cases "priority a = priority c") auto
qed

lemma mset_insertZone [simp]: "mset (insertZone z zs) = add_mset z (mset zs)"
  by (induction zs) simp_all

lemma set_insertZone [simp]: "set (insertZone z zs) = insert z (set zs)"
  by (metis mset_insertZone set_mset_add_mset_insert set_mset_mset)

lemma sorted_insertZone:
  "sorted_wrt (\<lambda>a b. compareZones a b \<le> 0) zs \<Longrightarrow>
   sorted_wrt (\<lambda>a b. compareZones a b \<le> 0) (insertZone z zs)"
proof (induction zs)
  case Nil
  then show ?case by simp
next
  case (Cons y ys)
  show ?case
  proof (cases "compareZones z y \<le> 0")
    case True
    have "\<forall>x \<in> set ys. compareZones z x \<le> 0"
      using Cons.prems True compareZones_trans by fastforce
    then show ?thesis
      using Cons.prems True by simp
  next
    case False
    then have "compareZones y z \<le> 0"
      using compareZones_total by blast
    moreover have "sorted_wrt (\<lambda>a b. compareZones a b \<le> 0) (insertZone z ys)"
      using Cons by simp
    ultimately show ?thesis
      using False Cons.prems by simp
  qed
qed

lemma filter_key_insertZone:
  "filter (\<lambda>x. priority x = p \<and> demand x = q) (insertZone z zs) =
     (if priority z = p \<and> demand z = q then z # filter (\<lambda>x. priority x = p \<and> demand x = q) zs
      else filter (\<lambda>x. priority x = p \<and> demand x = q) zs)"
proof (induction zs)
  case Nil
  then show ?case by simp
next
  case (Cons y ys)
  show ?case
  proof (cases "compareZones z y \<le> 0")
    case True
    then show ?thesis by simp
  next
    case False
    then have "\<not> (priority z = priority y \<and> demand z = demand y)"
      by (auto simp: compareZones_def)
    then show ?thesis
      using False Cons.IH by auto
  qed
qed

text \<open>
  The ordering step keeps the first entry in place and sorts the others: the result is a
  permutation, ordered by the comparator (priority ascending, then demand descending), and
  requests of equal priority and demand keep their relative order.
\<close>

theorem sortZones_sorted_stable:
  "mset (sortZones zs) = mset zs
   \<and> sorted_wrt (\<lambda>a b. compareZones a b \<le> 0) (sortZones zs)
   \<and> filter (\<lambda>x. priority x = p \<and> demand x = q) (sortZones zs)
       = filter (\<lambda>x. priority x = p \<and> demand x = q) zs
   \<and> sortZonesByPriority (b # zs) = Some (b # sortZones zs)"
proof -
  have "mset (sortZones zs) = mset zs"
    by (induction zs) (simp_all add: sortZones_def)
  moreover have "sorted_wrt (\<lambda>a b. compareZones a b \<le> 0) (sortZones zs)"
    by (induction zs) (simp_all add: sortZones_def sorted_insertZone)
  moreover have "filter (\<lambda>x. priority x = p \<and> demand x = q) (sortZones zs)
       = filter (\<lambda>x. priority x = p \<and> demand x = q) zs"
    by (induction zs) (simp_all add: sortZones_def filter_key_insertZone)
  ultimately show ?thesis
    by (simp add: sortZonesByPriority_def)
qed

text \<open>
  Route improvement never moves the first and the last entry of a route: the reversed
  segments lie strictly between them.
\<close>

theorem twoOptOptimize_ends:
  "length (twoOptOptimize dm rt m) = length rt
   \<and> hd (twoOptOptimize dm rt m) = hd rt \<and> last (twoOptOptimize dm rt m) = last rt"
proof (cases "rt = []")
  case True
  then show ?thesis by (simp add: twoOptOptimize_def)
next
  case False
  let ?P = "\<lambda>r. length r = length rt \<and> r ! 0 = rt ! 0
      \<and> r ! (length rt - 1) = rt ! (length rt - 1)"
  have "?P (twoOptOptimize dm rt m)"
  proof (rule twoOptOptimize_preserves [where P = ?P])
    fix i j :: nat and s :: "nat list \<times> bool"
    assume ij: "1 \<le> i" "i < j" "j + 1 < length (fst s)" and P: "?P (fst s)"
    have j: "j < length (fst s)" and z: "0 < length (fst s)"
      and l: "length rt - 1 < length (fst s)"
      using ij P False by simp_all
    have "reverseSegment (fst s) i j ! 0 = fst s ! 0"
      using reverseSegment_nth [OF j z] ij by simp
    moreover have "\<not> (length rt - 1 \<le> j)"
      using ij P by simp
    then have "reverseSegment (fst s) i j ! (length rt - 1) = fst s ! (length rt - 1)"
      using reverseSegment_nth [OF j l, of i] by simp
    ultimately show "?P (fst (twoOptStep dm m i j s))"
      using twoOptStep_cases [of dm m i j s] P by auto
  qed simp
  moreover from this False have "twoOptOptimize dm rt m \<noteq> []"
    by auto
  ultimately show ?thesis
    using False by (simp add: hd_conv_nth last_conv_nth)
qed

lemma markAssigned_field:
  assumes f: "\<And>z. f (z\<lparr>served := True\<rparr>) = f z"
  shows "markAssigned rt (zs, za, del) = (zs', za', del') \<Longrightarrow> \<forall>k. f (zs' ! k) = f (zs ! k)"
proof (induction rt arbitrary: zs za del)
  case Nil
  then show ?case by simp
next
  case (Cons a rt)
  show ?case
  proof (cases "a \<noteq> 0 \<and> \<not> za ! a")
    case True
    let ?zs = "zs[a := (zs ! a)\<lparr>served := True\<rparr>]"
    from Cons.prems True
    have "markAssigned rt (?zs, za[a := True], del + demand (zs ! a)) = (zs', za', del')"
      by simp
    from Cons.IH [OF this]
    have "\<forall>k. f (zs' ! k) = f (?zs ! k)" .
    moreover have "\<forall>k. f (?zs ! k) = f (zs ! k)"
      by (metis f list_update_beyond not_le nth_list_update_eq nth_list_update_neq)
    ultimately show ?thesis by simp
  next
    case False
    from Cons.prems False
    have "markAssigned rt (zs, za, del) = (zs', za', del')"
      by auto
    from Cons.IH [OF this]
    show ?thesis .
  qed
qed

lemma assignRoutes_zid:
  "assignRoutes dm ds zs za = (ds', zs', za') \<Longrightarrow> \<forall>k. zid (zs' ! k) = zid (zs ! k)"
proof (induction ds arbitrary: zs za ds')
  case Nil
  then show ?case by simp
next
  case (Cons d ds)
  from Cons.prems obtain d1 zs1 za1 ds2 where
    s: "assignDrone dm d zs za = (d1, zs1, za1)"
      "assignRoutes dm ds zs1 za1 = (ds2, zs', za')" "ds' = d1 # ds2"
    by (rule assignRoutes_Cons)
  have "\<forall>k. zid (zs1 ! k) = zid (zs ! k)"
    using s(1)
  proof (cases rule: assignDrone_cases)
    case skipped
    then show ?thesis by simp
  next
    case (served rt del)
    show ?thesis
      by (rule markAssigned_field [OF _ served(3)]) simp
  qed
  then show ?case
    using Cons.IH [OF s(2)] by simp
qed

lemma assignRoutes_head:
  "assignRoutes dm ds zs za = (ds', zs', za') \<Longrightarrow> \<forall>d \<in> set ds. route d = [] \<Longrightarrow>
   \<forall>d' \<in> set ds'. route d' = [] \<or> hd (route d') = 0"
proof (induction ds arbitrary: zs za ds')
  case Nil
  then show ?case by simp
next
  case (Cons d ds)
  from Cons.prems(1) obtain d1 zs1 za1 ds2 where
    s: "assignDrone dm d zs za = (d1, zs1, za1)"
      "assignRoutes dm ds zs1 za1 = (ds2, zs', za')" "ds' = d1 # ds2"
    by (rule assignRoutes_Cons)
  have "route d1 = [] \<or> hd (route d1) = 0"
  proof (cases "length (availableZonesFor zs za d) = 0")
    case True
    then show ?thesis
      using s(1) Cons.prems(2) by (simp add: assignDrone_def)
  next
    case False
    let ?rt0 = "nearestNeighborTSP dm zs (availableZonesFor zs za d) d"
    have "route d1 = ?rt0 \<or> route d1 = twoOptOptimize dm ?rt0 (batteryCapacity d)"
      using s(1) False by (auto simp: assignDrone_def Let_def split: prod.splits)
    then show ?thesis
      using nearestNeighborTSP_shape [of dm zs "availableZonesFor zs za d" d]
        twoOptOptimize_ends [of dm ?rt0 "batteryCapacity d"] by auto
  qed
  then show ?case
    using Cons.IH [OF s(2)] Cons.prems(2) s(3) by simp
qed

text \<open>
  On a fleet of drones from the constructor, every route that a call leaves is empty (the
  drone was skipped) or starts at position 0, the base.
\<close>

theorem optimize_routes_start_at_base:
  assumes "optimize st = Inr (st', res)"
    and "\<forall>d \<in> set (drones st). route d = []"
  shows "\<forall>d \<in> set (drones st'). route d = [] \<or> hd (route d) = 0"
proof -
  from assms(1) obtain zs1 za0 za' where
    r: "assignRoutes (buildDistanceMatrix (zones st)) (drones st) zs1 za0
         = (drones st', zones st', za')"
    by (rule optimize_Inr)
  show ?thesis
    using assignRoutes_head [OF r assms(2)] .
qed

theorem optimize_routes_start_at_base_witness:
  "optimize stEx = Inr (stEx1, getResults zsEx2 dronesEx1)
   \<and> drones stEx = [Drone 1 100 50, Drone 2 60000 50]
   \<and> route (Drone 1 100 50) = [] \<and> route (Drone 2 60000 50) = []
   \<and> drones stEx1 = dronesEx1
   \<and> route (dronesEx1 ! 0) = [0, 2] \<and> hd (route (dronesEx1 ! 0)) = 0
   \<and> route (dronesEx1 ! 1) = [0, 1] \<and> hd (route (dronesEx1 ! 1)) = 0"
proof -
  have h: "\<forall>d \<in> set (drones stEx). route d = []"
    by (simp add: stEx_eq Drone_def)
  have d: "drones stEx1 = dronesEx1"
    by (simp add: stEx1_def)
  have r: "route (dronesEx1 ! 0) = [0, 2]" "route (dronesEx1 ! 1) = [0, 1]"
    by (simp_all add: dronesEx1_def)
  from optimize_routes_start_at_base [OF optimize_stEx h]
  have "hd (route (dronesEx1 ! 0)) = 0" "hd (route (dronesEx1 ! 1)) = 0"
    unfolding d using r by (simp_all add: dronesEx1_def)
  then show ?thesis
    using optimize_stEx d r by (simp add: stEx_eq Drone_def)
qed

lemma mset_sortZones [simp]: "mset (sortZones zs) = mset zs"
  by (induction zs) (simp_all add: sortZones_def)

lemma optimize_Inr_sorted:
  assumes "optimize st = Inr (st', res)"
  obtains b others za' where
    "zones st = b # others"
    "assignRoutes (buildDistanceMatrix (zones st)) (drones st)
       (b\<lparr>served := True\<rparr> # map (\<lambda>z. z\<lparr>served := False\<rparr>) (sortZones others))
       (True # replicate (length others) False)
     = (drones st', zones st', za')"
proof (cases "zones st")
  case Nil
  then show ?thesis
    using assms by (simp add: optimize_def sortZonesByPriority_def)
next
  case (Cons b others)
  obtain ds' zs' za' where
    r: "assignRoutes (buildDistanceMatrix (zones st)) (drones st)
           (b\<lparr>served := True\<rparr> # map (\<lambda>z. z\<lparr>served := False\<rparr>) (sortZones others))
           (True # replicate (length others) False) = (ds', zs', za')"
    by (metis prod_cases3)
  from optimize_eq [OF Cons r] assms
  have "drones st' = ds'" "zones st' = zs'"
    by auto
  then show ?thesis
    using that [OF Cons] r by simp
qed

text \<open>
  Exclusivity in terms of request ids: when the ids of the request list are distinct before
  the call, they are distinct after it, and the requests that the routes of two different
  drones name share no id but that of the base.
\<close>

theorem optimize_exclusive_ids:
  assumes "optimize st = Inr (st', res)"
    and "\<forall>d \<in> set (drones st). route d = []"
    and "distinct (map zid (zones st))"
  shows "distinct (map zid (zones st'))
     \<and> (\<forall>a b. a < b \<longrightarrow> b < length (drones st') \<longrightarrow>
           set (map (\<lambda>i. zid (zones st' ! i)) (route (drones st' ! a)))
           \<inter> set (map (\<lambda>i. zid (zones st' ! i)) (route (drones st' ! b)))
           \<subseteq> {zid (zones st' ! 0)})"
proof -
  from assms(1) obtain b others za' where
    z: "zones st = b # others"
    and r: "assignRoutes (buildDistanceMatrix (zones st)) (drones st)
       (b\<lparr>served := True\<rparr> # map (\<lambda>z. z\<lparr>served := False\<rparr>) (sortZones others))
       (True # replicate (length others) False)
     = (drones st', zones st', za')"
    by (rule optimize_Inr_sorted)
  let ?zs1 = "b\<lparr>served := True\<rparr> # map (\<lambda>z. z\<lparr>served := False\<rparr>) (sortZones others)"
  let ?za0 = "True # replicate (length others) False"
  have len0: "length ?za0 = length ?zs1" by simp
  have len: "length (zones st') = length ?zs1"
    using assignRoutes_frame [OF r] by simp
  have "map zid (zones st') = map zid ?zs1"
  proof (rule nth_equalityI)
    show "length (map zid (zones st')) = length (map zid ?zs1)"
      using len by (simp only: length_map)
  next
    fix i assume "i < length (map zid (zones st'))"
    then have "i < length (zones st')" "i < length ?zs1"
      using len by (simp_all only: length_map)
    then show "map zid (zones st') ! i = map zid ?zs1 ! i"
      using assignRoutes_zid [OF r] by (simp only: nth_map)
  qed
  moreover have "map zid ?zs1 = zid b # map zid (sortZones others)"
    by (simp add: comp_def)
  moreover have "mset (map zid (sortZones others)) = mset (map zid others)"
    by (metis mset_map mset_sortZones)
  then have "mset (zid b # map zid (sortZones others)) = mset (map zid (zones st))"
    by (simp add: z)
  ultimately have ids: "distinct (map zid (zones st'))"
    using assms(3) by (metis mset_eq_imp_distinct_iff)
  from assignRoutes_routes [OF r len0 assms(2)]
  have each: "\<forall>d' \<in> set (drones st'). \<forall>k \<in> set (route d'). k \<noteq> 0 \<longrightarrow> k < length ?za0"
    and pair: "\<forall>a b. a < b \<longrightarrow> b < length (drones st') \<longrightarrow>
         set (route (drones st' ! a)) \<inter> set (route (drones st' ! b)) \<subseteq> {0}"
    by blast+
  have inr: "\<forall>d' \<in> set (drones st'). \<forall>k \<in> set (route d'). k < length (zones st')"
    using each len by (metis len0 length_greater_0_conv list.discI neq0_conv)
  have "set (map (\<lambda>i. zid (zones st' ! i)) (route (drones st' ! a)))
           \<inter> set (map (\<lambda>i. zid (zones st' ! i)) (route (drones st' ! b)))
           \<subseteq> {zid (zones st' ! 0)}"
    if ab: "a < b" "b < length (drones st')" for a b
  proof
    fix x
    assume "x \<in> set (map (\<lambda>i. zid (zones st' ! i)) (route (drones st' ! a)))
           \<inter> set (map (\<lambda>i. zid (zones st' ! i)) (route (drones st' ! b)))"
    then obtain i j where i: "i \<in> set (route (drones st' ! a))" "x = zid (zones st' ! i)"
      and j: "j \<in> set (route (drones st' ! b))" "x = zid (zones st' ! j)"
      by auto
    have "drones st' ! a \<in> set (drones st')" "drones st' ! b \<in> set (drones st')"
      using ab by simp_all
    then have lt: "i < length (zones st')" "j < length (zones st')"
      using inr i(1) j(1) by blast+
    have "map zid (zones st') ! i = map zid (zones st') ! j"
      using lt i(2) j(2) by simp
    moreover have "i < length (map zid (zones st'))" "j < length (map zid (zones st'))"
      using lt by simp_all
    ultimately have "i = j"
      using ids nth_eq_iff_index_eq by blast
    then have "i = 0"
      using pair ab i(1) j(1) by blast
    then show "x \<in> {zid (zones st' ! 0)}"
      using i(2) by simp
  qed
  then show ?thesis using ids by blast
qed

theorem optimize_exclusive_ids_witness:
  "optimize stEx = Inr (stEx1, getResults zsEx2 dronesEx1)
   \<and> drones stEx = [Drone 1 100 50, Drone 2 60000 50]
   \<and> route (Drone 1 100 50) = [] \<and> route (Drone 2 60000 50) = []
   \<and> map zid (zones stEx) = [0, 1, 2] \<and> distinct (map zid (zones stEx))
   \<and> map zid (zones stEx1) = [0, 2, 1] \<and> distinct (map zid (zones stEx1))
   \<and> drones stEx1 = dronesEx1
   \<and> map (\<lambda>i. zid (zones stEx1 ! i)) (route (dronesEx1 ! 0)) = [0, 1]
   \<and> map (\<lambda>i. zid (zones stEx1 ! i)) (route (dronesEx1 ! 1)) = [0, 2]
   \<and> set (map (\<lambda>i. zid (zones stEx1 ! i)) (route (dronesEx1 ! 0)))
       \<inter> set (map (\<lambda>i. zid (zones stEx1 ! i)) (route (dronesEx1 ! 1)))
       \<subseteq> {zid (zones stEx1 ! 0)}"
proof -
  have h: "\<forall>d \<in> set (drones stEx). route d = []"
    by (simp add: stEx_eq Drone_def)
  have c1: "drones stEx = [Drone 1 100 50, Drone 2 60000 50]"
    "route (Drone 1 100 50) = []" "route (Drone 2 60000 50) = []"
    by (simp_all add: stEx_eq Drone_def)
  have i: "map zid (zones stEx) = [0, 1, 2]" "distinct (map zid (zones stEx))"
    by (simp_all add: stEx_eq zBase_def zFar_def zNear_def)
  have d: "drones stEx1 = dronesEx1"
    by (simp add: stEx1_def)
  have m: "(0::nat) < 1" "1 < length (drones stEx1)"
    by (simp_all add: d dronesEx1_def)
  from optimize_exclusive_ids [OF optimize_stEx h i(2)] m
  have c2: "distinct (map zid (zones stEx1))"
    "set (map (\<lambda>i. zid (zones stEx1 ! i)) (route (dronesEx1 ! 0)))
       \<inter> set (map (\<lambda>i. zid (zones stEx1 ! i)) (route (dronesEx1 ! 1)))
       \<subseteq> {zid (zones stEx1 ! 0)}"
    unfolding d by blast+
  have c3: "map zid (zones stEx1) = [0, 2, 1]"
    "map (\<lambda>i. zid (zones stEx1 ! i)) (route (dronesEx1 ! 0)) = [0, 1]"
    "map (\<lambda>i. zid (zones stEx1 ! i)) (route (dronesEx1 ! 1)) = [0, 2]"
    by (simp_all add: stEx1_def zsEx2_def dronesEx1_def zBase_def zFar_def zNear_def)
  note c0 = optimize_stEx
  show ?thesis
    by (intro conjI; fact)
qed

end
